theory Spec2Isabelle
  imports Main "HOL-Library.Word" "HOL-Library.Multiset" "HOL-Library.Sublist"
begin

unbundle bit_operations_syntax

section \<open>Hole extraction (HoleConverter.cpp)\<close>

text \<open>
  \<^verbatim>\<open>using Edge = std::pair<int64_t, int64_t>\<close>. The indices are only compared and copied,
  never computed with, so they are modelled as \<open>int\<close>.
\<close>

type_synonym Edge = "int \<times> int"
type_synonym Edges = "Edge list"
type_synonym FaceOrHoleIndices = "int list"
type_synonym FaceWithHoles = "FaceOrHoleIndices list"

text \<open>The abstract class \<^verbatim>\<open>EdgeSource\<close>: its three virtual member functions.\<close>

record EdgeSource =
  getEdges :: Edges
  getPointIndex :: "int \<Rightarrow> int"
  isBridge :: "int \<Rightarrow> int \<Rightarrow> bool"

text \<open>
  A subscript outside a \<^verbatim>\<open>std::vector\<close> is undefined behaviour in the source; the model
  returns it as an error value.
\<close>

datatype error = OutOfRange | AssertionFailed

text \<open>\<^verbatim>\<open>operator<\<close> of \<^verbatim>\<open>std::pair\<close>: lexicographic.\<close>

definition pair_less :: "Edge \<Rightarrow> Edge \<Rightarrow> bool" where
  "pair_less a b = (fst a < fst b \<or> (\<not> fst b < fst a \<and> snd a < snd b))"

text \<open>The two conditional swaps of \<^verbatim>\<open>undirectedLessThan::operator()\<close>.\<close>

definition swapIfGreater :: "Edge \<Rightarrow> Edge" where
  "swapIfGreater a = (if fst a > snd a then (snd a, fst a) else a)"

definition undirectedLessThan :: "Edge \<Rightarrow> Edge \<Rightarrow> bool" where
  "undirectedLessThan a b = pair_less (swapIfGreater a) (swapIfGreater b)"

text \<open>
  \<^verbatim>\<open>UndirectedEdgeSet = std::set<Edge, undirectedLessThan>\<close>, as the list of its elements
  in iteration order (ascending for the comparator). \<^verbatim>\<open>emplace\<close> inserts the edge at its
  place unless an equivalent element (neither less than the other) is already stored.
\<close>

type_synonym UndirectedEdgeSet = "Edge list"

fun emplace :: "Edge \<Rightarrow> UndirectedEdgeSet \<Rightarrow> UndirectedEdgeSet" where
  "emplace e [] = [e]"
| "emplace e (x # xs) =
     (if undirectedLessThan e x then e # x # xs
      else if undirectedLessThan x e then x # emplace e xs
      else x # xs)"

datatype BridgeEndCheck = EDGE_START | EDGE_END

definition checkBridgeEnding :: "BridgeEndCheck \<Rightarrow> UndirectedEdgeSet \<Rightarrow> Edge \<Rightarrow> bool" where
  "checkBridgeEnding endCheck bridges startVertexToEndPointEdge =
     (case endCheck of
        EDGE_START \<Rightarrow>
          find (\<lambda>bridge. snd startVertexToEndPointEdge = fst bridge) bridges \<noteq> None
      | EDGE_END \<Rightarrow>
          find (\<lambda>bridge. snd startVertexToEndPointEdge = snd bridge) bridges \<noteq> None)"

text \<open>\<^verbatim>\<open>info[ringIdx].push_back(v)\<close>, with \<^verbatim>\<open>size_t ringIdx\<close> a 64-bit unsigned value.\<close>

definition push_back_at :: "FaceWithHoles \<Rightarrow> 64 word \<Rightarrow> int \<Rightarrow> error + FaceWithHoles" where
  "push_back_at info ringIdx v =
     (if unat ringIdx < length info
      then Inr (info[unat ringIdx := info ! unat ringIdx @ [v]])
      else Inl OutOfRange)"

text \<open>
  The loop of \<^verbatim>\<open>detectFaceAndHoles\<close> over the remaining edges, with the loop state
  \<open>(info, ringIdx)\<close>. \<^verbatim>\<open>ringIdx++\<close> and \<^verbatim>\<open>ringIdx--\<close> wrap around as \<^verbatim>\<open>size_t\<close> does.
\<close>

fun detectLoop ::
  "UndirectedEdgeSet \<Rightarrow> Edges \<Rightarrow> FaceWithHoles \<Rightarrow> 64 word \<Rightarrow> error + FaceWithHoles" where
  "detectLoop bridges [] info ringIdx = Inr info"
| "detectLoop bridges (e # es) info ringIdx =
     (if checkBridgeEnding EDGE_START bridges e then
        (case push_back_at info ringIdx (fst e) of
           Inl err \<Rightarrow> Inl err
         | Inr info' \<Rightarrow> detectLoop bridges es (info' @ [[]]) (ringIdx + 1))
      else if checkBridgeEnding EDGE_END bridges e then
        (case push_back_at info ringIdx (fst e) of
           Inl err \<Rightarrow> Inl err
         | Inr info' \<Rightarrow> detectLoop bridges es info' (ringIdx - 1))
      else
        (case push_back_at info ringIdx (fst e) of
           Inl err \<Rightarrow> Inl err
         | Inr info' \<Rightarrow> detectLoop bridges es info' ringIdx))"

definition detectFaceAndHoles :: "UndirectedEdgeSet \<Rightarrow> Edges \<Rightarrow> error + FaceWithHoles" where
  "detectFaceAndHoles bridges startVertexToEndPointEdges =
     detectLoop bridges startVertexToEndPointEdges [[]] 0"

text \<open>
  The first loop of \<^verbatim>\<open>extractHoles\<close>: every edge is either a bridge, stored in the
  undirected set by its point indices, or kept as (start vertex index, end point index).
  The state is \<open>(startVertexToEndPointEdges, bridges)\<close>.
\<close>

fun collectEdges :: "EdgeSource \<Rightarrow> Edges \<Rightarrow> Edges \<times> UndirectedEdgeSet \<Rightarrow> Edges \<times> UndirectedEdgeSet" where
  "collectEdges source [] st = st"
| "collectEdges source ((vertexIndexA, vertexIndexB) # rest) (startVertexToEndPointEdges, bridges) =
     (let pointIndexA = getPointIndex source vertexIndexA;
          pointIndexB = getPointIndex source vertexIndexB
      in if isBridge source pointIndexA pointIndexB
         then collectEdges source rest
                (startVertexToEndPointEdges, emplace (pointIndexA, pointIndexB) bridges)
         else collectEdges source rest
                (startVertexToEndPointEdges @ [(vertexIndexA, pointIndexB)], bridges))"

definition extractHoles :: "EdgeSource \<Rightarrow> error + FaceWithHoles" where
  "extractHoles source =
     (let (startVertexToEndPointEdges, bridges) = collectEdges source (getEdges source) ([], [])
      in if bridges \<noteq> []
         then detectFaceAndHoles bridges startVertexToEndPointEdges
         else Inr [map fst startVertexToEndPointEdges])"

text \<open>The edges of a source that its predicate does not mark as bridges.\<close>

definition edgeIsBridge :: "EdgeSource \<Rightarrow> Edge \<Rightarrow> bool" where
  "edgeIsBridge source e =
     isBridge source (getPointIndex source (fst e)) (getPointIndex source (snd e))"

definition nonBridgeEdges :: "EdgeSource \<Rightarrow> Edges" where
  "nonBridgeEdges source = filter (\<lambda>e. \<not> edgeIsBridge source e) (getEdges source)"

text \<open>
  Example sources. A triangle without bridges, and a square (points 0 to 3) with a square
  hole (points 4 to 7) joined by the bridge between points 1 and 4: ten vertices, of which
  vertex 6 is again point 4 and vertex 7 is again point 1.
\<close>

definition triangleSource :: EdgeSource where
  "triangleSource =
     \<lparr> getEdges = [(0, 1), (1, 2), (2, 0)], getPointIndex = (\<lambda>v. v),
       isBridge = (\<lambda>a b. False) \<rparr>"

definition squarePoints :: "int \<Rightarrow> int" where
  "squarePoints v = [0, 1, 4, 5, 6, 7, 4, 1, 2, 3] ! nat v"

definition squareIsBridge :: "int \<Rightarrow> int \<Rightarrow> bool" where
  "squareIsBridge a b = ((a = 1 \<and> b = 4) \<or> (a = 4 \<and> b = 1))"

text \<open>The traversal starts on the outer ring: the bridge is first seen as (1, 4).\<close>

definition squareWithHole :: EdgeSource where
  "squareWithHole =
     \<lparr> getEdges = [(0, 1), (1, 2), (2, 3), (3, 4), (4, 5), (5, 6), (6, 7), (7, 8), (8, 9), (9, 0)],
       getPointIndex = squarePoints, isBridge = squareIsBridge \<rparr>"

text \<open>The same polygon, traversed from vertex 2 on the hole: the bridge is first seen as (4, 1).\<close>

definition squareFromHole :: EdgeSource where
  "squareFromHole =
     \<lparr> getEdges = [(2, 3), (3, 4), (4, 5), (5, 6), (6, 7), (7, 8), (8, 9), (9, 0), (0, 1), (1, 2)],
       getPointIndex = squarePoints, isBridge = squareIsBridge \<rparr>"

text \<open>
  The edges of \<open>squareWithHole\<close> in the same order, with only the two bridge edges turned
  round, so that the bridge is first seen as (4, 1).
\<close>

definition squareBridgeFlipped :: EdgeSource where
  "squareBridgeFlipped =
     \<lparr> getEdges = [(0, 1), (2, 1), (2, 3), (3, 4), (4, 5), (5, 6), (7, 6), (7, 8), (8, 9), (9, 0)],
       getPointIndex = squarePoints, isBridge = squareIsBridge \<rparr>"

text \<open>Two edges are equivalent for the set when neither is less than the other.\<close>

definition equivEdge :: "Edge \<Rightarrow> Edge \<Rightarrow> bool" where
  "equivEdge a b = (\<not> undirectedLessThan a b \<and> \<not> undirectedLessThan b a)"

section \<open>Shape conversion (ShapeConverter.cpp)\<close>

text \<open>
  \<^verbatim>\<open>struct UV\<close> and the mutable members of \<^verbatim>\<open>struct ConversionHelper\<close>. The values of type
  \<^verbatim>\<open>double\<close> are only copied here, so their type is the parameter \<open>'d\<close>; \<^verbatim>\<open>uint32_t\<close> is
  \<open>32 word\<close>. The members \<^verbatim>\<open>coords\<close> and \<^verbatim>\<open>uvHandles\<close> are references to the caller's
  vectors and are passed as arguments.
\<close>

record 'd UV =
  uvs :: "'d list"
  idx :: "32 word list"

record 'd ConversionHelper =
  indices :: "32 word list"
  faceCounts :: "32 word list"
  holes :: "32 word list"
  uvSets :: "'d UV list"

text \<open>
  A \<^verbatim>\<open>GA_ROHandleV2D\<close>: \<open>None\<close> when \<^verbatim>\<open>isInvalid()\<close>, else the function \<^verbatim>\<open>get\<close> from a
  vertex offset to the two components of the vector.
\<close>

type_synonym 'd GA_ROHandleV2D = "(int \<Rightarrow> 'd \<times> 'd) option"

text \<open>
  What the converter reads of a polygon primitive: the members of \<^verbatim>\<open>GA_Primitive\<close>
  (\<^verbatim>\<open>getVertexCount\<close>, \<^verbatim>\<open>getPointIndex\<close>, \<^verbatim>\<open>getVertexOffset\<close>) and of the \<^verbatim>\<open>GEO_Face\<close> it is
  cast to (\<^verbatim>\<open>iterateEdgesByVertex\<close> as the list of the pairs it passes to its callback,
  \<^verbatim>\<open>getPointOffset\<close>, \<^verbatim>\<open>isBridge\<close>).
\<close>

record GA_Primitive =
  prim_getVertexCount :: int
  prim_getPointIndex :: "int \<Rightarrow> int"
  prim_getVertexOffset :: "int \<Rightarrow> int"
  face_iterateEdgesByVertex :: "(int \<times> int) list"
  face_getPointOffset :: "int \<Rightarrow> int"
  face_isBridge :: "int \<Rightarrow> int \<Rightarrow> bool"

text \<open>What the converter reads of a \<^verbatim>\<open>GEO_PrimPolySoup::PolygonIterator\<close>.\<close>

record PolygonIterator =
  pit_getVertexCount :: int
  pit_getPointIndex :: "int \<Rightarrow> int"
  pit_getVertexOffset :: "int \<Rightarrow> int"

text \<open>\<^verbatim>\<open>class GeoFaceHoleSource\<close>, the edge source of a face.\<close>

definition GeoFaceHoleSource :: "GA_Primitive \<Rightarrow> EdgeSource" where
  "GeoFaceHoleSource mFace =
     \<lparr> getEdges = face_iterateEdgesByVertex mFace,
       getPointIndex = face_getPointOffset mFace,
       isBridge = face_isBridge mFace \<rparr>"

text \<open>
  \<^verbatim>\<open>forEachUVSet\<close>: the loop over \<open>u\<close>, from the handle numbered \<open>u\<close> on. An invalid handle
  is skipped; for a valid one \<^verbatim>\<open>func\<close> updates \<^verbatim>\<open>ch.uvSets[u]\<close>.
\<close>

fun forEachUVSet ::
  "'d GA_ROHandleV2D list \<Rightarrow> nat \<Rightarrow> ((int \<Rightarrow> 'd \<times> 'd) \<Rightarrow> 'd UV \<Rightarrow> 'd UV) \<Rightarrow>
   'd ConversionHelper \<Rightarrow> error + 'd ConversionHelper" where
  "forEachUVSet [] u func ch = Inr ch"
| "forEachUVSet (uvh # rest) u func ch =
     (case uvh of
        None \<Rightarrow> forEachUVSet rest (Suc u) func ch
      | Some h \<Rightarrow>
          if u < length (uvSets ch)
          then forEachUVSet rest (Suc u) func
                 (ch\<lparr>uvSets := (uvSets ch)[u := func h (uvSets ch ! u)]\<rparr>)
          else Inl OutOfRange)"

text \<open>
  The first loop of \<^verbatim>\<open>convertPolygon\<close> (\<^verbatim>\<open>GA_Primitive\<close> overload), over the rings of the
  face: the hole entry is the size of \<^verbatim>\<open>faceCounts\<close> before the ring's count is pushed, and
  the point indices of the ring are pushed from its last vertex to its first.
\<close>

fun emitRings :: "GA_Primitive \<Rightarrow> FaceWithHoles \<Rightarrow> 'd ConversionHelper \<Rightarrow> 'd ConversionHelper" where
  "emitRings prim [] ch = ch"
| "emitRings prim (faceOrHole # rest) ch =
     emitRings prim rest
       (ch\<lparr> holes := holes ch @ [of_nat (length (faceCounts ch))],
            faceCounts := faceCounts ch @ [of_nat (length faceOrHole)],
            indices := indices ch @ map (\<lambda>off. of_int (prim_getPointIndex prim off)) (rev faceOrHole) \<rparr>)"

text \<open>The lambda passed to \<^verbatim>\<open>forEachUVSet\<close> by the \<^verbatim>\<open>GA_Primitive\<close> overload.\<close>

fun polygonUVs :: "GA_Primitive \<Rightarrow> FaceWithHoles \<Rightarrow> (int \<Rightarrow> 'd \<times> 'd) \<Rightarrow> 'd UV \<Rightarrow> 'd UV" where
  "polygonUVs prim [] uvh uvSet = uvSet"
| "polygonUVs prim (faceOrHole # rest) uvh uvSet =
     polygonUVs prim rest uvh
       (uvSet\<lparr> uvs := uvs uvSet @
                  concat (map (\<lambda>j. let v = uvh (prim_getVertexOffset prim j) in [fst v, snd v])
                            faceOrHole),
               idx := idx uvSet @
                  rev (map (\<lambda>k. of_nat (length (idx uvSet) + k)) [0..<length faceOrHole]) \<rparr>)"

definition convertPolygon ::
  "'d ConversionHelper \<Rightarrow> GA_Primitive \<Rightarrow> 'd GA_ROHandleV2D list \<Rightarrow> error + 'd ConversionHelper" where
  "convertPolygon ch prim uvHandles =
     (case extractHoles (GeoFaceHoleSource prim) of
        Inl err \<Rightarrow> Inl err
      | Inr faceWithHoles \<Rightarrow>
          (let ch1 = emitRings prim faceWithHoles ch;
               ch2 = ch1\<lparr>holes := holes ch1 @ [0xFFFFFFFF]\<rparr>
           in forEachUVSet uvHandles 0 (polygonUVs prim faceWithHoles) ch2))"

text \<open>
  The \<^verbatim>\<open>PolygonIterator\<close> overload of \<^verbatim>\<open>convertPolygon\<close>. Both of its loops run \<open>i\<close> from
  \<^verbatim>\<open>vtxCnt - 1\<close> down to 0.
\<close>

fun soupUVs :: "PolygonIterator \<Rightarrow> int list \<Rightarrow> (int \<Rightarrow> 'd \<times> 'd) \<Rightarrow> 'd UV \<Rightarrow> 'd UV" where
  "soupUVs prim [] uvh uvSet = uvSet"
| "soupUVs prim (i # rest) uvh uvSet =
     (let v = uvh (pit_getVertexOffset prim i)
      in soupUVs prim rest uvh
           (uvSet\<lparr> uvs := uvs uvSet @ [fst v, snd v],
                   idx := idx uvSet @ [of_nat (length (idx uvSet))] \<rparr>))"

definition convertPolygon_PolygonIterator ::
  "'d ConversionHelper \<Rightarrow> PolygonIterator \<Rightarrow> 'd GA_ROHandleV2D list \<Rightarrow> error + 'd ConversionHelper" where
  "convertPolygon_PolygonIterator ch prim uvHandles =
     (let vtxCnt = pit_getVertexCount prim;
          downwards = rev [0..vtxCnt - 1];
          ch1 = ch\<lparr> faceCounts := faceCounts ch @ [of_int vtxCnt],
                    indices := indices ch @ map (\<lambda>i. of_int (pit_getPointIndex prim i)) downwards \<rparr>
      in forEachUVSet uvHandles 0 (soupUVs prim downwards) ch1)"

text \<open>
  The arithmetic of \<^verbatim>\<open>double\<close> and \<^verbatim>\<open>std::hash<double>\<close> belong to the platform; the converter
  takes them as given: \<^verbatim>\<open>0.0\<close>, \<^verbatim>\<open>+\<close>, \<^verbatim>\<open>/\<close>, the conversion \<^verbatim>\<open>(double) n\<close> of a size, and the
  hash, a \<^verbatim>\<open>size_t\<close> of 64 bits.
\<close>

record 'd DoubleOps =
  d_zero :: 'd
  d_add :: "'d \<Rightarrow> 'd \<Rightarrow> 'd"
  d_div :: "'d \<Rightarrow> 'd \<Rightarrow> 'd"
  d_of_size :: "nat \<Rightarrow> 'd"
  std_hash :: "'d \<Rightarrow> 64 word"

text \<open>
  The loop of \<^verbatim>\<open>getCentroid\<close>. \<^verbatim>\<open>idx\<close> is a \<^verbatim>\<open>uint32_t\<close>, so \<^verbatim>\<open>3 * idx + k\<close> is computed in
  32 bits; a subscript outside \<^verbatim>\<open>coords\<close> is an error.
\<close>

fun centroidLoop ::
  "'d DoubleOps \<Rightarrow> 'd list \<Rightarrow> 32 word list \<Rightarrow> 'd \<times> 'd \<times> 'd \<Rightarrow> error + 'd \<times> 'd \<times> 'd" where
  "centroidLoop ops coords [] centroid = Inr centroid"
| "centroidLoop ops coords (i # rest) (c0, c1, c2) =
     (if unat (3 * i + 0) < length coords \<and> unat (3 * i + 1) < length coords \<and>
         unat (3 * i + 2) < length coords
      then centroidLoop ops coords rest
             (d_add ops c0 (coords ! unat (3 * i + 0)),
              d_add ops c1 (coords ! unat (3 * i + 1)),
              d_add ops c2 (coords ! unat (3 * i + 2)))
      else Inl OutOfRange)"

definition getCentroid ::
  "'d DoubleOps \<Rightarrow> 'd list \<Rightarrow> 'd ConversionHelper \<Rightarrow> error + 'd \<times> 'd \<times> 'd" where
  "getCentroid ops coords ch =
     (case centroidLoop ops coords (indices ch) (d_zero ops, d_zero ops, d_zero ops) of
        Inl err \<Rightarrow> Inl err
      | Inr (c0, c1, c2) \<Rightarrow>
          Inr (d_div ops c0 (d_of_size ops (length (indices ch))),
               d_div ops c1 (d_of_size ops (length (indices ch))),
               d_div ops c2 (d_of_size ops (length (indices ch)))))"

text \<open>\<^verbatim>\<open>hash_combine\<close> of Utils.h, at \<^verbatim>\<open>SizeT = size_t\<close>.\<close>

definition hash_combine :: "64 word \<Rightarrow> 64 word \<Rightarrow> 64 word" where
  "hash_combine seed val = seed XOR (val + 0x9e3779b9 + push_bit 6 seed + drop_bit 2 seed)"

text \<open>
  The primitive attribute found under \<^verbatim>\<open>PLD_RANDOM_SEED\<close>, when there is one: its storage
  class and the value that a \<^verbatim>\<open>GA_ROHandleI\<close> bound to it reads at a primitive offset, an
  \<^verbatim>\<open>int32_t\<close> (32 bits in two's complement).
\<close>

datatype GA_StorageClass =
  GA_STORECLASS_INT | GA_STORECLASS_REAL | GA_STORECLASS_STRING | GA_STORECLASS_OTHER

record GA_ROAttributeRef =
  getStorageClass :: GA_StorageClass
  seedH_get :: "int \<Rightarrow> 32 word"

text \<open>The \<^verbatim>\<open>else\<close> branch of \<^verbatim>\<open>getRandomSeed\<close>; the cast to \<^verbatim>\<open>int32_t\<close> keeps the low 32 bits.\<close>

definition centroidSeed :: "'d DoubleOps \<Rightarrow> 'd list \<Rightarrow> 'd ConversionHelper \<Rightarrow> error + 32 word" where
  "centroidSeed ops coords ch =
     (case getCentroid ops coords ch of
        Inl err \<Rightarrow> Inl err
      | Inr (c0, c1, c2) \<Rightarrow>
          (let hash0 = 0;
               hash1 = hash_combine hash0 (std_hash ops c0);
               hash2 = hash_combine hash1 (std_hash ops c1);
               hash3 = hash_combine hash2 (std_hash ops c2)
           in Inr (ucast hash3)))"

definition getRandomSeed ::
  "'d DoubleOps \<Rightarrow> GA_ROAttributeRef option \<Rightarrow> int \<Rightarrow> 'd list \<Rightarrow> 'd ConversionHelper \<Rightarrow>
   error + 32 word" where
  "getRandomSeed ops seedRef primOffset coords ch =
     (case seedRef of
        None \<Rightarrow> centroidSeed ops coords ch
      | Some ref \<Rightarrow>
          if getStorageClass ref = GA_STORECLASS_INT
          then Inr (seedH_get ref primOffset)
          else centroidSeed ops coords ch)"

text \<open>
  The coordinate \<open>k\<close> (0, 1 or 2) of the points that a list of indices refers to, in the
  order of the indices, and its mean with the operations on \<^verbatim>\<open>double\<close> of the platform: the
  sum from the left, starting at \<^verbatim>\<open>0.0\<close>, divided by the number of indices.
\<close>

definition referencedCoords :: "'d list \<Rightarrow> 32 word list \<Rightarrow> nat \<Rightarrow> 'd list" where
  "referencedCoords coords idxs k = map (\<lambda>i. coords ! (3 * unat i + k)) idxs"

definition meanCoord :: "'d DoubleOps \<Rightarrow> 'd list \<Rightarrow> 32 word list \<Rightarrow> nat \<Rightarrow> 'd" where
  "meanCoord ops coords idxs k =
     d_div ops (foldl (d_add ops) (d_zero ops) (referencedCoords coords idxs k))
       (d_of_size ops (length idxs))"





definition intOps :: "int DoubleOps" where
  "intOps = \<lparr> d_zero = 0, d_add = (+), d_div = (div), d_of_size = int, std_hash = of_int \<rparr>"

definition intSeedAttribute :: GA_ROAttributeRef where
  "intSeedAttribute = \<lparr> getStorageClass = GA_STORECLASS_INT, seedH_get = (\<lambda>off. 42) \<rparr>"

definition triangleHelper :: "int ConversionHelper" where
  "triangleHelper = \<lparr> indices = [2, 1, 0], faceCounts = [3], holes = [0, 0xFFFFFFFF], uvSets = [] \<rparr>"

definition triangleCoords :: "int list" where
  "triangleCoords = [0, 0, 0, 3, 0, 0, 0, 6, 9]"

text \<open>
  The same triangle twice in one detail, and the helper of the second copy: other point
  indices, the same coordinates.
\<close>

definition twinCoords :: "int list" where
  "twinCoords = triangleCoords @ triangleCoords"

definition twinHelper :: "int ConversionHelper" where
  "twinHelper = triangleHelper\<lparr> indices := [5, 4, 3] \<rparr>"

section \<open>Runtime context (PRTContext.cpp)\<close>

text \<open>\<^verbatim>\<open>ResolveMapCache::CacheStatus\<close>.\<close>

datatype CacheStatus = HIT | MISS

text \<open>
  A rule package is named by a \<^verbatim>\<open>std::filesystem::path\<close>, a type \<open>'p\<close> of the platform. The
  code uses two of its operations: the comparison \<^verbatim>\<open>operator==\<close>, which compares two paths
  element by element and not as strings, and \<^verbatim>\<open>string()\<close>.
\<close>

record 'p PathOps =
  path_equal :: "'p \<Rightarrow> 'p \<Rightarrow> bool"
  path_string :: "'p \<Rightarrow> string"

text \<open>
  What \<^verbatim>\<open>scheduleRecook\<close> reads and changes of a node of the host: the name of its operator,
  the rule package that \<^verbatim>\<open>SOPAssign::getRPK\<close> returns (read for Assign Nodes only), and the
  number of times \<^verbatim>\<open>forceRecook\<close> has been called on it.
\<close>

record 'p OP_Node =
  operatorName :: string
  getRPK :: 'p
  forceRecookCalls :: nat

text \<open>
  The lambda \<^verbatim>\<open>visit\<close> of \<^verbatim>\<open>scheduleRecook\<close>. The operator name \<^verbatim>\<open>OP_PLD_ASSIGN\<close> is a constant
  of PalladioMain.h and a parameter here; \<^verbatim>\<open>sa.getRPK() == *visitedRPK\<close> is the comparison of
  paths.
\<close>

definition visit :: "'p PathOps \<Rightarrow> string \<Rightarrow> 'p \<Rightarrow> 'p OP_Node \<Rightarrow> 'p OP_Node" where
  "visit ops OP_PLD_ASSIGN visitedRPK n =
     (if operatorName n = OP_PLD_ASSIGN
      then (if path_equal ops (getRPK n) visitedRPK
            then n\<lparr>forceRecookCalls := Suc (forceRecookCalls n)\<rparr>
            else n)
      else n)"

text \<open>
  \<^verbatim>\<open>scheduleRecook\<close>: \<^verbatim>\<open>OPgetDirector()\<close> is \<open>None\<close> when it returns \<^verbatim>\<open>nullptr\<close>, else the nodes
  that \<^verbatim>\<open>traverseChildren\<close> visits below the manager \<^verbatim>\<open>"obj"\<close>.
\<close>

definition scheduleRecook ::
  "'p PathOps \<Rightarrow> string \<Rightarrow> 'p \<Rightarrow> 'p OP_Node list option \<Rightarrow> 'p OP_Node list option" where
  "scheduleRecook ops OP_PLD_ASSIGN rpk director =
     (case director of
        None \<Rightarrow> None
      | Some children \<Rightarrow> Some (map (visit ops OP_PLD_ASSIGN rpk) children))"

text \<open>
  The state that \<^verbatim>\<open>getResolveMap\<close> works on: the resolve-map cache of the context, the
  calls of \<^verbatim>\<open>flushAll\<close> received by the engine cache \<^verbatim>\<open>mPRTCache\<close>, the arguments of the calls
  of \<^verbatim>\<open>scheduleRecook\<close>, and the node graph of the host.
\<close>

record ('c, 'p) PRTContext =
  mResolveMapCache :: 'c
  flushAllCalls :: nat
  scheduleRecookCalls :: "'p list"
  OPgetDirector :: "'p OP_Node list option"

text \<open>
  \<^verbatim>\<open>PRTContext::getResolveMap\<close>. \<^verbatim>\<open>ResolveMapCache::get\<close> is a parameter: it takes the cache
  and the string of the path and returns the lookup result, a pair of the map and the
  status, with the cache after the lookup. \<^verbatim>\<open>PLD_TEST_EXPORTS\<close> tells whether the macro of
  that name is defined (a test build).
\<close>

definition getResolveMap ::
  "'p PathOps \<Rightarrow> bool \<Rightarrow> string \<Rightarrow> ('c \<Rightarrow> string \<Rightarrow> ('m \<times> CacheStatus) \<times> 'c) \<Rightarrow> 'p \<Rightarrow>
   ('c, 'p) PRTContext \<Rightarrow> 'm \<times> ('c, 'p) PRTContext" where
  "getResolveMap ops PLD_TEST_EXPORTS OP_PLD_ASSIGN cache_get rpk ctx =
     (let (lookupResult, cache') = cache_get (mResolveMapCache ctx) (path_string ops rpk);
          ctx1 = ctx\<lparr>mResolveMapCache := cache'\<rparr>;
          ctx2 =
            (if snd lookupResult = MISS
             then (let flushed = ctx1\<lparr>flushAllCalls := Suc (flushAllCalls ctx1)\<rparr>
                   in if PLD_TEST_EXPORTS then flushed
                      else flushed
                        \<lparr> scheduleRecookCalls := scheduleRecookCalls flushed @ [rpk],
                          OPgetDirector :=
                            scheduleRecook ops OP_PLD_ASSIGN rpk (OPgetDirector flushed) \<rparr>)
             else ctx1)
      in (fst lookupResult, ctx2))"

text \<open>
  For the examples: the paths of a POSIX host, written as strings. A path has the root
  directory as its first element when it starts with a separator, then its file names;
  separators that follow one another count as one, and a separator at the end gives an
  empty last name. Two paths are equal when their elements are.
\<close>

fun fileNames :: "string \<Rightarrow> string \<Rightarrow> string list" where
  "fileNames cur [] = [cur]"
| "fileNames cur (c # cs) =
     (if c = CHR ''/''
      then (if cur = [] then fileNames [] cs else cur # fileNames [] cs)
      else fileNames (cur @ [c]) cs)"

definition pathElements :: "string \<Rightarrow> string list" where
  "pathElements p = (if take 1 p = ''/'' then [''/''] else []) @ fileNames [] p"

definition posixPaths :: "string PathOps" where
  "posixPaths = \<lparr> path_equal = (\<lambda>p q. pathElements p = pathElements q), path_string = (\<lambda>p. p) \<rparr>"

text \<open>
  A cache that remembers the strings it has seen and answers with the length of the
  string as the map, and a host with two Assign Nodes and one other node; the first
  Assign Node names its rule package with a doubled separator.
\<close>

definition exampleCacheGet :: "string list \<Rightarrow> string \<Rightarrow> (nat \<times> CacheStatus) \<times> string list" where
  "exampleCacheGet cache path =
     (if path \<in> set cache then ((length path, HIT), cache)
      else ((length path, MISS), path # cache))"

definition exampleContext :: "(string list, string) PRTContext" where
  "exampleContext =
     \<lparr> mResolveMapCache = [], flushAllCalls = 0, scheduleRecookCalls = [],
       OPgetDirector = Some
         [\<lparr> operatorName = ''pldAssign'', getRPK = ''dir//a.rpk'', forceRecookCalls = 0 \<rparr>,
          \<lparr> operatorName = ''pldAssign'', getRPK = ''dir/b.rpk'', forceRecookCalls = 0 \<rparr>,
          \<lparr> operatorName = ''box'', getRPK = ''dir/a.rpk'', forceRecookCalls = 0 \<rparr>] \<rparr>"

section \<open>Error and report callbacks (ModelConverter.cpp)\<close>

text \<open>
  The values of \<^verbatim>\<open>prt::Status\<close> that the sources name, and the levels of \<^verbatim>\<open>prt::LogLevel\<close>
  in the order of \<^verbatim>\<open>logging::LEVELS\<close>.
\<close>

datatype Status =
  STATUS_OK | STATUS_UNSPECIFIED_ERROR | STATUS_ILLEGAL_CALLBACK_OBJECT | STATUS_OTHER nat

datatype LogLevel = LOG_TRACE | LOG_DEBUG | LOG_INFO | LOG_WARNING | LOG_ERROR | LOG_FATAL

text \<open>
  The state of a \<^verbatim>\<open>ModelConverter\<close> that the callbacks below can reach: the status array
  \<^verbatim>\<open>mStatuses\<close> and the calls \<^verbatim>\<open>prt::log(message, level)\<close> made so far, which is where a
  \<^verbatim>\<open>PRTLogger\<close> sends its text when it is destroyed. The other members are the extension of
  the record.
\<close>

record ModelConverter =
  mStatuses :: "Status list"
  prt_log :: "(string \<times> LogLevel) list"

text \<open>
  \<^verbatim>\<open>generateError\<close>: \<^verbatim>\<open>LOG_WRN << message\<close> logs at \<^verbatim>\<open>LOG_WARNING\<close>, then the status is
  stored at \<^verbatim>\<open>mStatuses[isIndex]\<close>.
\<close>

definition generateError ::
  "nat \<Rightarrow> Status \<Rightarrow> string \<Rightarrow> 'z ModelConverter_scheme \<Rightarrow>
   error + Status \<times> 'z ModelConverter_scheme" where
  "generateError isIndex status message mc =
     (let logged = mc\<lparr>prt_log := prt_log mc @ [(message, LOG_WARNING)]\<rparr>
      in if isIndex < length (mStatuses logged)
         then Inr (STATUS_OK, logged\<lparr>mStatuses := (mStatuses logged)[isIndex := status]\<rparr>)
         else Inl OutOfRange)"

definition cgaReportBool ::
  "nat \<Rightarrow> 32 word \<Rightarrow> string \<Rightarrow> bool \<Rightarrow> 'z ModelConverter_scheme \<Rightarrow>
   Status \<times> 'z ModelConverter_scheme" where
  "cgaReportBool isIndex shapeID key val mc = (STATUS_OK, mc)"

definition cgaReportFloat ::
  "nat \<Rightarrow> 32 word \<Rightarrow> string \<Rightarrow> 'd \<Rightarrow> 'z ModelConverter_scheme \<Rightarrow>
   Status \<times> 'z ModelConverter_scheme" where
  "cgaReportFloat isIndex shapeID key val mc = (STATUS_OK, mc)"

definition cgaReportString ::
  "nat \<Rightarrow> 32 word \<Rightarrow> string \<Rightarrow> string \<Rightarrow> 'z ModelConverter_scheme \<Rightarrow>
   Status \<times> 'z ModelConverter_scheme" where
  "cgaReportString isIndex shapeID key val mc = (STATUS_OK, mc)"

text \<open>For the examples: a converter for three initial shapes, none of which has failed.\<close>

definition exampleConverter :: ModelConverter where
  "exampleConverter = \<lparr> mStatuses = [STATUS_OK, STATUS_OK, STATUS_OK], prt_log = [] \<rparr>"

section \<open>Encoder: materials (HoudiniEncoder.cpp)\<close>

text \<open>
  The attribute types of \<^verbatim>\<open>prt::Attributable\<close> and the two that \<^verbatim>\<open>prtx::Material\<close> adds.
\<close>

datatype PrimitiveType =
  PT_UNDEFINED | PT_STRING | PT_FLOAT | PT_BOOL | PT_INT
| PT_STRING_ARRAY | PT_FLOAT_ARRAY | PT_BOOL_ARRAY | PT_INT_ARRAY
| PT_BLIND_DATA | PT_BLIND_DATA_ARRAY | PT_TEXTURE | PT_TEXTURE_ARRAY

text \<open>A texture: the string of its URI (\<^verbatim>\<open>getURI()->wstring()\<close>) and \<^verbatim>\<open>isValid()\<close>.\<close>

record Texture =
  getURI :: string
  isValid :: bool

text \<open>
  What the encoder reads of a \<^verbatim>\<open>prtx::Material\<close>: its keys and the typed getters. A
  \<^verbatim>\<open>prtx::Bool\<close> is a byte, compared with \<^verbatim>\<open>prtx::PRTX_TRUE\<close>; an \<^verbatim>\<open>int32_t\<close> is 32 bits in
  two's complement; strings of \<^verbatim>\<open>wchar_t\<close> are strings.
\<close>

record 'd Material =
  getKeys :: "string list"
  getType :: "string \<Rightarrow> PrimitiveType"
  getBool :: "string \<Rightarrow> 8 word"
  getFloat :: "string \<Rightarrow> 'd"
  getInt :: "string \<Rightarrow> 32 word"
  getString :: "string \<Rightarrow> string"
  getBoolArray :: "string \<Rightarrow> 8 word list"
  getIntArray :: "string \<Rightarrow> 32 word list"
  getFloatArray :: "string \<Rightarrow> 'd list"
  getStringArray :: "string \<Rightarrow> string list"
  getTexture :: "string \<Rightarrow> Texture"
  getTextureArray :: "string \<Rightarrow> Texture list"

definition PRTX_TRUE :: "8 word" where
  "PRTX_TRUE = 1"

text \<open>
  A \<^verbatim>\<open>prt::AttributeMapBuilder\<close> holds one typed value for each key that has been set; a
  \<^verbatim>\<open>set...\<close> call stores the value under its key.
\<close>

datatype 'd AttributeValue =
  BoolValue bool | FloatValue 'd | IntValue "32 word" | StringValue string
| BoolArrayValue "bool list" | IntArrayValue "32 word list" | FloatArrayValue "'d list"
| StringArrayValue "string list"

type_synonym 'd AttributeMapBuilder = "string \<rightharpoonup> 'd AttributeValue"

text \<open>
  \<^verbatim>\<open>MATERIAL_ATTRIBUTE_BLACKLIST\<close>, a \<^verbatim>\<open>std::set\<close> of which only membership is used; the second
  part is compiled in when \<^verbatim>\<open>PRT_VERSION_MAJOR > 1\<close>.
\<close>

definition MATERIAL_ATTRIBUTE_BLACKLIST :: "nat \<Rightarrow> string list" where
  "MATERIAL_ATTRIBUTE_BLACKLIST PRT_VERSION_MAJOR =
     [''ambient.b'', ''ambient.g'', ''ambient.r'',
      ''bumpmap.rw'', ''bumpmap.su'', ''bumpmap.sv'', ''bumpmap.tu'', ''bumpmap.tv'',
      ''color.a'', ''color.b'', ''color.g'', ''color.r'', ''color.rgb'',
      ''colormap.rw'', ''colormap.su'', ''colormap.sv'', ''colormap.tu'', ''colormap.tv'',
      ''dirtmap.rw'', ''dirtmap.su'', ''dirtmap.sv'', ''dirtmap.tu'', ''dirtmap.tv'',
      ''normalmap.rw'', ''normalmap.su'', ''normalmap.sv'', ''normalmap.tu'', ''normalmap.tv'',
      ''opacitymap.rw'', ''opacitymap.su'', ''opacitymap.sv'', ''opacitymap.tu'', ''opacitymap.tv'',
      ''specular.b'', ''specular.g'', ''specular.r'',
      ''specularmap.rw'', ''specularmap.su'', ''specularmap.sv'', ''specularmap.tu'',
      ''specularmap.tv'',
      ''bumpmap'', ''colormap'', ''dirtmap'', ''normalmap'', ''opacitymap'', ''specularmap''] @
     (if PRT_VERSION_MAJOR > 1 then
        [''opacitymap.mode'', ''emissive.b'', ''emissive.g'', ''emissive.r'',
         ''emissivemap.rw'', ''emissivemap.su'', ''emissivemap.sv'', ''emissivemap.tu'',
         ''emissivemap.tv'',
         ''metallicmap.rw'', ''metallicmap.su'', ''metallicmap.sv'', ''metallicmap.tu'',
         ''metallicmap.tv'',
         ''occlusionmap.rw'', ''occlusionmap.su'', ''occlusionmap.sv'', ''occlusionmap.tu'',
         ''occlusionmap.tv'',
         ''roughnessmap.rw'', ''roughnessmap.su'', ''roughnessmap.sv'', ''roughnessmap.tu'',
         ''roughnessmap.tv'',
         ''emissivemap'', ''metallicmap'', ''occlusionmap'', ''roughnessmap'']
      else [])"

text \<open>
  The \<^verbatim>\<open>switch\<close> of \<^verbatim>\<open>convertMaterialToAttributeMap\<close> for one key that is not blacklisted.
\<close>

definition convertKey :: "'d Material \<Rightarrow> string \<Rightarrow> 'd AttributeMapBuilder \<Rightarrow> 'd AttributeMapBuilder" where
  "convertKey prtxAttr key aBuilder =
     (case getType prtxAttr key of
        PT_BOOL \<Rightarrow> aBuilder(key \<mapsto> BoolValue (getBool prtxAttr key = PRTX_TRUE))
      | PT_FLOAT \<Rightarrow> aBuilder(key \<mapsto> FloatValue (getFloat prtxAttr key))
      | PT_INT \<Rightarrow> aBuilder(key \<mapsto> IntValue (getInt prtxAttr key))
      | PT_STRING \<Rightarrow> aBuilder(key \<mapsto> StringValue (getString prtxAttr key))
      | PT_BOOL_ARRAY \<Rightarrow>
          aBuilder(key \<mapsto> BoolArrayValue (map (\<lambda>b. b = PRTX_TRUE) (getBoolArray prtxAttr key)))
      | PT_INT_ARRAY \<Rightarrow> aBuilder(key \<mapsto> IntArrayValue (getIntArray prtxAttr key))
      | PT_FLOAT_ARRAY \<Rightarrow> aBuilder(key \<mapsto> FloatArrayValue (getFloatArray prtxAttr key))
      | PT_STRING_ARRAY \<Rightarrow> aBuilder(key \<mapsto> StringArrayValue (getStringArray prtxAttr key))
      | PT_TEXTURE \<Rightarrow> aBuilder(key \<mapsto> StringValue (getURI (getTexture prtxAttr key)))
      | PT_TEXTURE_ARRAY \<Rightarrow>
          aBuilder(key \<mapsto> StringArrayValue (map getURI (getTextureArray prtxAttr key)))
      | _ \<Rightarrow> aBuilder)"

fun convertMaterialToAttributeMap ::
  "nat \<Rightarrow> 'd AttributeMapBuilder \<Rightarrow> 'd Material \<Rightarrow> string list \<Rightarrow> 'd AttributeMapBuilder" where
  "convertMaterialToAttributeMap PRT_VERSION_MAJOR aBuilder prtxAttr [] = aBuilder"
| "convertMaterialToAttributeMap PRT_VERSION_MAJOR aBuilder prtxAttr (key # keys) =
     (if key \<in> set (MATERIAL_ATTRIBUTE_BLACKLIST PRT_VERSION_MAJOR)
      then convertMaterialToAttributeMap PRT_VERSION_MAJOR aBuilder prtxAttr keys
      else convertMaterialToAttributeMap PRT_VERSION_MAJOR
             (convertKey prtxAttr key aBuilder) prtxAttr keys)"

text \<open>
  For the examples: a material with the three keys \<open>color.r\<close>, \<open>diffuseColor\<close> and
  \<open>bumpmap.su\<close>, all of type float, and one with a valid texture in the bump map slot.
\<close>

definition exampleMaterial :: "int Material" where
  "exampleMaterial =
     \<lparr> getKeys = [''color.r'', ''diffuseColor'', ''bumpmap.su''],
       getType = (\<lambda>k. PT_FLOAT), getBool = (\<lambda>k. 0),
       getFloat = (\<lambda>k. if k = ''diffuseColor'' then 7 else 1), getInt = (\<lambda>k. 0),
       getString = (\<lambda>k. []), getBoolArray = (\<lambda>k. []), getIntArray = (\<lambda>k. []),
       getFloatArray = (\<lambda>k. []), getStringArray = (\<lambda>k. []),
       getTexture = (\<lambda>k. \<lparr> getURI = [], isValid = False \<rparr>), getTextureArray = (\<lambda>k. []) \<rparr>"

definition plainMaterial :: "int Material" where
  "plainMaterial = exampleMaterial\<lparr> getKeys := [] \<rparr>"

definition bumpMaterial :: "int Material" where
  "bumpMaterial =
     exampleMaterial
       \<lparr> getTextureArray :=
           (\<lambda>k. if k = ''bumpMap'' then [\<lparr> getURI = ''bump.png'', isValid = True \<rparr>] else []) \<rparr>"

section \<open>Encoder: serialized geometry (HoudiniEncoder.cpp)\<close>

text \<open>
  What \<^verbatim>\<open>serializeGeometry\<close> reads of a \<^verbatim>\<open>prtx::Mesh\<close>, one field for each member function it
  calls. A function that returns a pointer to the indices of a face is modelled by the
  function from a position to the index stored there.
\<close>

record 'd Mesh =
  getVertexCoords :: "'d list"
  getVertexNormalsCoords :: "'d list"
  getFaceCount :: "32 word"
  getHolesCount :: "32 word"
  getFaceVertexCounts :: "32 word list"
  getUVSetsCount :: "32 word"
  getUVCoords :: "nat \<Rightarrow> 'd list"
  getFaceUVCounts :: "nat \<Rightarrow> 32 word list"
  getFaceUVIndices :: "nat \<Rightarrow> nat \<Rightarrow> nat \<Rightarrow> 32 word"
  getFaceVertexCount :: "nat \<Rightarrow> 32 word"
  getFaceVertexIndices :: "nat \<Rightarrow> nat \<Rightarrow> 32 word"
  getFaceVertexNormalIndices :: "nat \<Rightarrow> (nat \<Rightarrow> 32 word) option"
  getFaceVertexNormalCount :: "nat \<Rightarrow> nat"
  getFaceHolesCount :: "nat \<Rightarrow> 32 word"
  getFaceHolesIndices :: "nat \<Rightarrow> (nat \<Rightarrow> 32 word) option"

text \<open>
  \<^verbatim>\<open>TEXTURE_UV_MAPPINGS\<close>: shader key, index into the texture array, UV set; the last four
  rows are compiled in when \<^verbatim>\<open>PRT_VERSION_MAJOR > 1\<close>.
\<close>

definition TEXTURE_UV_MAPPINGS :: "nat \<Rightarrow> (string \<times> nat \<times> int) list" where
  "TEXTURE_UV_MAPPINGS PRT_VERSION_MAJOR =
     [(''diffuseMap'', 0, 0), (''bumpMap'', 0, 1), (''diffuseMap'', 1, 2),
      (''specularMap'', 0, 3), (''opacityMap'', 0, 4), (''normalMap'', 0, 5)] @
     (if PRT_VERSION_MAJOR > 1 then
        [(''emissiveMap'', 0, 6), (''occlusionMap'', 0, 7), (''roughnessMap'', 0, 8),
         (''metallicMap'', 0, 9)]
      else [])"

text \<open>
  \<^verbatim>\<open>scanValidTextures\<close>: the loop over the table with the running \<^verbatim>\<open>int8_t highestUVSet\<close>
  (between -1 and 9), and the result as a \<^verbatim>\<open>uint32_t\<close>.
\<close>

fun scanLoop :: "'d Material \<Rightarrow> (string \<times> nat \<times> int) list \<Rightarrow> int \<Rightarrow> int" where
  "scanLoop mat [] highestUVSet = highestUVSet"
| "scanLoop mat ((key, index, uvSet) # rest) highestUVSet =
     (let ta = getTextureArray mat key
      in scanLoop mat rest
           (if length ta > index \<and> isValid (ta ! index)
            then max highestUVSet uvSet else highestUVSet))"

definition scanValidTextures :: "nat \<Rightarrow> 'd Material \<Rightarrow> 32 word" where
  "scanValidTextures PRT_VERSION_MAJOR mat =
     (let highestUVSet = scanLoop mat (TEXTURE_UV_MAPPINGS PRT_VERSION_MAJOR) (- 1)
      in if highestUVSet < 0 then 0 else of_int (highestUVSet + 1))"

text \<open>The counters of the first pass, all \<^verbatim>\<open>uint32_t\<close>.\<close>

record ScanCounts =
  numCoords :: "32 word"
  numNormalCoords :: "32 word"
  numCounts :: "32 word"
  numHoles :: "32 word"
  numIndices :: "32 word"
  maxNumUVSets :: "32 word"

text \<open>The body of the inner loop of the first pass, for one mesh and its material.\<close>

definition scanMesh :: "nat \<Rightarrow> 'd Mesh \<Rightarrow> 'd Material \<Rightarrow> ScanCounts \<Rightarrow> ScanCounts" where
  "scanMesh PRT_VERSION_MAJOR mesh mat c =
     (let requiredUVSetsByMaterial = scanValidTextures PRT_VERSION_MAJOR mat
      in c\<lparr> numCoords := numCoords c + of_nat (length (getVertexCoords mesh)),
            numNormalCoords := numNormalCoords c + of_nat (length (getVertexNormalsCoords mesh)),
            numCounts := numCounts c + getFaceCount mesh,
            numHoles := numHoles c + getHolesCount mesh,
            numIndices := foldl (+) (numIndices c) (getFaceVertexCounts mesh),
            maxNumUVSets :=
              max (maxNumUVSets c) (max (getUVSetsCount mesh) requiredUVSetsByMaterial) \<rparr>)"

text \<open>
  The two loops of the first pass. A geometry is the list of its meshes. The iterators
  \<^verbatim>\<open>matIt\<close> and \<^verbatim>\<open>matsIt\<close> are dereferenced without a check: reading past the end of the
  materials is an error.
\<close>

fun scanMeshes ::
  "nat \<Rightarrow> 'd Mesh list \<Rightarrow> 'd Material list \<Rightarrow> ScanCounts \<Rightarrow> error + ScanCounts" where
  "scanMeshes v [] mats c = Inr c"
| "scanMeshes v (mesh # meshes) [] c = Inl OutOfRange"
| "scanMeshes v (mesh # meshes) (mat # mats) c = scanMeshes v meshes mats (scanMesh v mesh mat c)"

fun scanGeometries ::
  "nat \<Rightarrow> 'd Mesh list list \<Rightarrow> 'd Material list list \<Rightarrow> ScanCounts \<Rightarrow> error + ScanCounts" where
  "scanGeometries v [] materials c = Inr c"
| "scanGeometries v (geo # geometries) [] c = Inl OutOfRange"
| "scanGeometries v (geo # geometries) (mats # materials) c =
     (case scanMeshes v geo mats c of
        Inl err \<Rightarrow> Inl err
      | Inr c' \<Rightarrow> scanGeometries v geometries materials c')"

text \<open>\<^verbatim>\<open>detail::SerializedGeometry\<close>: the arrays that \<^verbatim>\<open>serializeGeometry\<close> fills.\<close>

record 'd SerializedGeometry =
  sg_coords :: "'d list"
  sg_normals :: "'d list"
  sg_counts :: "32 word list"
  sg_holeCounts :: "32 word list"
  sg_holeIndices :: "32 word list"
  sg_vertexIndices :: "32 word list"
  sg_normalIndices :: "32 word list"
  sg_uvs :: "'d list list"
  sg_uvCounts :: "32 word list list"
  sg_uvIndices :: "32 word list list"

text \<open>
  Modelled from the spec: the constructor of \<^verbatim>\<open>SerializedGeometry\<close>, declared in
  HoudiniEncoder.h. The specification describes the serialized geometry as flat arrays
  and, for each UV channel 0 to N - 1, flat arrays of UV coordinates, counts and indices,
  constructed fresh by a sizing pass before the copy pass: the constructor takes the sizes
  of the first pass and returns empty arrays, with one empty array of each kind for each of
  the \<open>uvSets\<close> channels.
\<close>

definition newSerializedGeometry ::
  "32 word \<Rightarrow> 32 word \<Rightarrow> 32 word \<Rightarrow> 32 word \<Rightarrow> 32 word \<Rightarrow> 32 word \<Rightarrow> 'd SerializedGeometry" where
  "newSerializedGeometry numCoords' numNormalCoords' numCounts' numHoles' numIndices' uvSets' =
     \<lparr> sg_coords = [], sg_normals = [], sg_counts = [], sg_holeCounts = [], sg_holeIndices = [],
       sg_vertexIndices = [], sg_normalIndices = [],
       sg_uvs = replicate (unat uvSets') [],
       sg_uvCounts = replicate (unat uvSets') [],
       sg_uvIndices = replicate (unat uvSets') [] \<rparr>"

text \<open>
  The locals of the second pass for one mesh and one UV set, as the source computes them:
  \<^verbatim>\<open>uvs0\<close>, \<^verbatim>\<open>faceUVCounts0\<close>, \<^verbatim>\<open>uvs\<close>, \<^verbatim>\<open>src\<close>, \<^verbatim>\<open>faceUVCounts\<close>, \<^verbatim>\<open>faceUVIdx0\<close> and \<^verbatim>\<open>faceUVIdx\<close>.
  \<^verbatim>\<open>EMPTY_IDX.data()\<close> is never read, since the counts are 0 where it is chosen.
\<close>

definition mesh_uvs0 :: "'d Mesh \<Rightarrow> 'd list" where
  "mesh_uvs0 mesh = (if getUVSetsCount mesh > 0 then getUVCoords mesh 0 else [])"

definition mesh_faceUVCounts0 :: "'d Mesh \<Rightarrow> 32 word list" where
  "mesh_faceUVCounts0 mesh =
     (if getUVSetsCount mesh > 0 then getFaceUVCounts mesh 0
      else replicate (unat (getFaceCount mesh)) 0)"

definition mesh_uvs :: "'d Mesh \<Rightarrow> nat \<Rightarrow> 'd list" where
  "mesh_uvs mesh uvSet = (if uvSet < unat (getUVSetsCount mesh) then getUVCoords mesh uvSet else [])"

definition mesh_src :: "'d Mesh \<Rightarrow> nat \<Rightarrow> 'd list" where
  "mesh_src mesh uvSet = (if mesh_uvs mesh uvSet = [] then mesh_uvs0 mesh else mesh_uvs mesh uvSet)"

definition mesh_faceUVCounts :: "'d Mesh \<Rightarrow> nat \<Rightarrow> 32 word list" where
  "mesh_faceUVCounts mesh uvSet =
     (if uvSet < unat (getUVSetsCount mesh) \<and> mesh_uvs mesh uvSet \<noteq> []
      then getFaceUVCounts mesh uvSet else mesh_faceUVCounts0 mesh)"

definition mesh_faceUVIdx0 :: "'d Mesh \<Rightarrow> nat \<Rightarrow> nat \<Rightarrow> 32 word" where
  "mesh_faceUVIdx0 mesh fi =
     (if getUVSetsCount mesh > 0 then getFaceUVIndices mesh fi 0 else (\<lambda>i. 0))"

definition mesh_faceUVIdx :: "'d Mesh \<Rightarrow> nat \<Rightarrow> nat \<Rightarrow> nat \<Rightarrow> 32 word" where
  "mesh_faceUVIdx mesh uvSet fi =
     (if uvSet < unat (getUVSetsCount mesh) \<and> mesh_uvs mesh uvSet \<noteq> []
      then getFaceUVIndices mesh fi uvSet else mesh_faceUVIdx0 mesh fi)"

text \<open>
  The loop that appends the UV vertex indices of one mesh to one channel: for every face,
  the indices of the face from the last to the first, each added to the index base of the
  channel.
\<close>

definition mesh_uvIndices :: "'d Mesh \<Rightarrow> nat \<Rightarrow> 32 word \<Rightarrow> 32 word list" where
  "mesh_uvIndices mesh uvSet uvIndexBase =
     concat (map (\<lambda>fi. let faceUVCnt = mesh_faceUVCounts mesh uvSet ! fi
                        in map (\<lambda>vi. uvIndexBase +
                                      mesh_faceUVIdx mesh uvSet fi (unat faceUVCnt - vi - 1))
                             [0..<unat faceUVCnt])
               [0..<unat (of_nat (length (mesh_faceUVCounts mesh uvSet)) :: 32 word)])"

text \<open>The state of the second pass: the geometry under construction and the index bases.\<close>

record 'd CopyState =
  sg :: "'d SerializedGeometry"
  vertexIndexBase :: "32 word"
  normalIndexBase :: "32 word"
  faceIndexBase :: "32 word"
  uvIndexBases :: "32 word list"

text \<open>
  The loop over the UV sets of the second pass, for the remaining channels \<open>uvSet\<close>. The
  subscripts into the four arrays indexed by the channel are checked. \<open>NDEBUG\<close> tells
  whether the macro of that name is defined, as it is in a release build: then the
  \<^verbatim>\<open>assert\<close> on the number of face counts is compiled out and the loop goes on; else a
  failed assertion stops the program.
\<close>

fun copyUVSets :: "bool \<Rightarrow> 'd Mesh \<Rightarrow> nat list \<Rightarrow> 'd CopyState \<Rightarrow> error + 'd CopyState" where
  "copyUVSets NDEBUG mesh [] st = Inr st"
| "copyUVSets NDEBUG mesh (uvSet # rest) st =
     (if uvSet < length (sg_uvs (sg st)) \<and> uvSet < length (sg_uvCounts (sg st)) \<and>
         uvSet < length (sg_uvIndices (sg st)) \<and> uvSet < length (uvIndexBases st)
      then
        if \<not> NDEBUG \<and> length (mesh_faceUVCounts mesh uvSet) \<noteq> unat (getFaceCount mesh)
        then Inl AssertionFailed
        else copyUVSets NDEBUG mesh rest
          (st\<lparr> sg := (sg st)
                 \<lparr> sg_uvs := (sg_uvs (sg st))
                     [uvSet := sg_uvs (sg st) ! uvSet @ mesh_src mesh uvSet],
                   sg_uvCounts := (sg_uvCounts (sg st))
                     [uvSet := sg_uvCounts (sg st) ! uvSet @ mesh_faceUVCounts mesh uvSet],
                   sg_uvIndices := (sg_uvIndices (sg st))
                     [uvSet := sg_uvIndices (sg st) ! uvSet @
                        mesh_uvIndices mesh uvSet (uvIndexBases st ! uvSet)] \<rparr>,
               uvIndexBases := (uvIndexBases st)
                 [uvSet := uvIndexBases st ! uvSet + of_nat (length (mesh_src mesh uvSet)) div 2] \<rparr>)
      else Inl OutOfRange)"

text \<open>
  The body of the loop over the faces of a mesh: the vertex count, the vertex and normal
  indices in reversed order, the hole count and the hole indices.
\<close>

definition copyFace :: "'d Mesh \<Rightarrow> nat \<Rightarrow> 'd CopyState \<Rightarrow> 'd CopyState" where
  "copyFace mesh fi st =
     (let vtxCnt = getFaceVertexCount mesh fi;
          vtxIdx = getFaceVertexIndices mesh fi;
          nrmIdx = getFaceVertexNormalIndices mesh fi;
          nrmCnt = getFaceVertexNormalCount mesh fi;
          reversed = map (\<lambda>vi. unat vtxCnt - vi - 1) [0..<unat vtxCnt];
          holeCount = getFaceHolesCount mesh fi;
          holesIndices = getFaceHolesIndices mesh fi
      in st\<lparr> sg := (sg st)
            \<lparr> sg_counts := sg_counts (sg st) @ [vtxCnt],
              sg_vertexIndices := sg_vertexIndices (sg st) @
                map (\<lambda>viReversed. vertexIndexBase st + vtxIdx viReversed) reversed,
              sg_normalIndices := sg_normalIndices (sg st) @
                (case nrmIdx of
                   None \<Rightarrow> []
                 | Some nrm \<Rightarrow>
                     map (\<lambda>viReversed. normalIndexBase st + nrm viReversed)
                       (filter (\<lambda>viReversed. nrmCnt > viReversed) reversed)),
              sg_holeCounts := sg_holeCounts (sg st) @ [holeCount],
              sg_holeIndices := sg_holeIndices (sg st) @
                (case holesIndices of
                   None \<Rightarrow> []
                 | Some hs \<Rightarrow>
                     if holeCount > 0
                     then map (\<lambda>hi. hs hi + faceIndexBase st) [0..<unat holeCount]
                     else []) \<rparr> \<rparr>)"

text \<open>The body of the loop over the meshes of the second pass.\<close>

definition copyMesh :: "bool \<Rightarrow> 'd Mesh \<Rightarrow> 'd CopyState \<Rightarrow> error + 'd CopyState" where
  "copyMesh NDEBUG mesh st =
     (let verts = getVertexCoords mesh;
          norms = getVertexNormalsCoords mesh;
          st1 = st\<lparr> sg := (sg st)\<lparr> sg_coords := sg_coords (sg st) @ verts,
                                   sg_normals := sg_normals (sg st) @ norms \<rparr> \<rparr>
      in case copyUVSets NDEBUG mesh [0..<length (sg_uvs (sg st1))] st1 of
           Inl err \<Rightarrow> Inl err
         | Inr st2 \<Rightarrow>
             (let st3 = fold (copyFace mesh) [0..<unat (getFaceCount mesh)] st2
              in Inr (st3\<lparr> vertexIndexBase := vertexIndexBase st3 + of_nat (length verts) div 3,
                           normalIndexBase := normalIndexBase st3 + of_nat (length norms) div 3,
                           faceIndexBase := faceIndexBase st3 + getFaceCount mesh \<rparr>)))"

fun copyMeshes :: "bool \<Rightarrow> 'd Mesh list \<Rightarrow> 'd CopyState \<Rightarrow> error + 'd CopyState" where
  "copyMeshes NDEBUG [] st = Inr st"
| "copyMeshes NDEBUG (mesh # meshes) st =
     (case copyMesh NDEBUG mesh st of
        Inl err \<Rightarrow> Inl err
      | Inr st' \<Rightarrow> copyMeshes NDEBUG meshes st')"

fun copyGeometries :: "bool \<Rightarrow> 'd Mesh list list \<Rightarrow> 'd CopyState \<Rightarrow> error + 'd CopyState" where
  "copyGeometries NDEBUG [] st = Inr st"
| "copyGeometries NDEBUG (geo # geometries) st =
     (case copyMeshes NDEBUG geo st of
        Inl err \<Rightarrow> Inl err
      | Inr st' \<Rightarrow> copyGeometries NDEBUG geometries st')"

text \<open>\<^verbatim>\<open>detail::serializeGeometry\<close>: the scan, the construction, the copy.\<close>

definition serializeGeometry ::
  "bool \<Rightarrow> nat \<Rightarrow> 'd Mesh list list \<Rightarrow> 'd Material list list \<Rightarrow> error + 'd SerializedGeometry" where
  "serializeGeometry NDEBUG PRT_VERSION_MAJOR geometries materials =
     (case scanGeometries PRT_VERSION_MAJOR geometries materials
             \<lparr> numCoords = 0, numNormalCoords = 0, numCounts = 0, numHoles = 0, numIndices = 0,
               maxNumUVSets = 0 \<rparr> of
        Inl err \<Rightarrow> Inl err
      | Inr c \<Rightarrow>
          (case copyGeometries NDEBUG geometries
                  \<lparr> sg = newSerializedGeometry (numCoords c) (numNormalCoords c) (numCounts c)
                           (numHoles c) (numIndices c) (maxNumUVSets c),
                    vertexIndexBase = 0, normalIndexBase = 0, faceIndexBase = 0,
                    uvIndexBases = replicate (unat (maxNumUVSets c)) 0 \<rparr> of
             Inl err \<Rightarrow> Inl err
           | Inr st \<Rightarrow> Inr (sg st)))"

text \<open>
  The terms of the property of the UV channels. The UV sets that the valid textures of a
  material require: a row of the table counts when the texture array of its key has an
  entry at its index and that texture is valid. The number of UV sets that a material
  requires is one more than the highest of them, and 0 when there is none.
\<close>

definition validTextureUVSets :: "nat \<Rightarrow> 'd Material \<Rightarrow> int list" where
  "validTextureUVSets PRT_VERSION_MAJOR mat =
     map (\<lambda>(key, index, uvSet). uvSet)
       (filter (\<lambda>(key, index, uvSet).
                  index < length (getTextureArray mat key) \<and> isValid (getTextureArray mat key ! index))
          (TEXTURE_UV_MAPPINGS PRT_VERSION_MAJOR))"

definition requiredUVSets :: "nat \<Rightarrow> 'd Material \<Rightarrow> nat" where
  "requiredUVSets PRT_VERSION_MAJOR mat =
     (if validTextureUVSets PRT_VERSION_MAJOR mat = [] then 0
      else nat (Max (set (validTextureUVSets PRT_VERSION_MAJOR mat))) + 1)"

text \<open>
  The materials cover the geometries when there is a list of materials for every geometry
  and in it a material for every mesh: the first pass steps through the materials along
  with the meshes and does not check for their end.
\<close>

fun materialsCover :: "'d Mesh list list \<Rightarrow> 'd Material list list \<Rightarrow> bool" where
  "materialsCover [] materials = True"
| "materialsCover (geo # geometries) [] = False"
| "materialsCover (geo # geometries) (mats # materials) =
     (length geo \<le> length mats \<and> materialsCover geometries materials)"

text \<open>
  The meshes of all geometries with their materials, in the order of the first pass; the
  number of UV sets that a mesh with its material asks for, as the first pass computes it;
  and the number of channels of the property: the maximum over all meshes of the larger of
  the UV-set count of the mesh and the number of UV sets that its material requires.
\<close>

definition meshMaterialPairs ::
  "'d Mesh list list \<Rightarrow> 'd Material list list \<Rightarrow> ('d Mesh \<times> 'd Material) list" where
  "meshMaterialPairs geometries materials =
     concat (map (\<lambda>(geo, mats). zip geo mats) (zip geometries materials))"

definition neededUVSets :: "nat \<Rightarrow> 'd Mesh \<times> 'd Material \<Rightarrow> 32 word" where
  "neededUVSets PRT_VERSION_MAJOR p =
     max (getUVSetsCount (fst p)) (scanValidTextures PRT_VERSION_MAJOR (snd p))"

definition channelCount :: "nat \<Rightarrow> 'd Mesh list list \<Rightarrow> 'd Material list list \<Rightarrow> nat" where
  "channelCount PRT_VERSION_MAJOR geometries materials =
     Max (set (0 # map (\<lambda>(mesh, mat). max (unat (getUVSetsCount mesh))
                                          (requiredUVSets PRT_VERSION_MAJOR mat))
                     (meshMaterialPairs geometries materials)))"

text \<open>
  The UV indices of one channel over a list of meshes, from a given index base: the
  indices of each mesh are offset by the base, which then advances by half the number of
  UV coordinates that the mesh has contributed to the channel.
\<close>

fun channelIndices :: "nat \<Rightarrow> 32 word \<Rightarrow> 'd Mesh list \<Rightarrow> 32 word list" where
  "channelIndices uvSet uvIndexBase [] = []"
| "channelIndices uvSet uvIndexBase (mesh # meshes) =
     mesh_uvIndices mesh uvSet uvIndexBase @
     channelIndices uvSet (uvIndexBase + of_nat (length (mesh_src mesh uvSet)) div 2) meshes"

text \<open>
  For the examples: two triangles. The first has the UV set 0 only, the second has the UV
  sets 0 and 1; UV coordinates are integers here.
\<close>

definition meshOne :: "int Mesh" where
  "meshOne =
     \<lparr> getVertexCoords = [0, 0, 0, 1, 0, 0, 0, 1, 0], getVertexNormalsCoords = [],
       getFaceCount = 1, getHolesCount = 0, getFaceVertexCounts = [3],
       getUVSetsCount = 1,
       getUVCoords = (\<lambda>uvSet. [10, 11, 12, 13, 14, 15]),
       getFaceUVCounts = (\<lambda>uvSet. [3]),
       getFaceUVIndices = (\<lambda>fi uvSet i. [0, 1, 2] ! i),
       getFaceVertexCount = (\<lambda>fi. 3),
       getFaceVertexIndices = (\<lambda>fi i. [0, 1, 2] ! i),
       getFaceVertexNormalIndices = (\<lambda>fi. None), getFaceVertexNormalCount = (\<lambda>fi. 0),
       getFaceHolesCount = (\<lambda>fi. 0), getFaceHolesIndices = (\<lambda>fi. None) \<rparr>"

definition meshTwo :: "int Mesh" where
  "meshTwo =
     meshOne
       \<lparr> getUVSetsCount := 2,
         getUVCoords := (\<lambda>uvSet. if uvSet = 0 then [20, 21, 22, 23, 24, 25]
                                  else [30, 31, 32, 33, 34, 35]) \<rparr>"

section \<open>Properties of the hole extraction\<close>

lemma collectEdges_fst:
  "fst (collectEdges source es (kept, bridges)) =
     kept @ map (\<lambda>e. (fst e, getPointIndex source (snd e)))
              (filter (\<lambda>e. \<not> edgeIsBridge source e) es)"
  by (induction es arbitrary: kept bridges)
     (auto simp: edgeIsBridge_def Let_def)

lemma collectEdges_no_bridge:
  "\<forall>e \<in> set es. \<not> edgeIsBridge source e \<Longrightarrow>
     snd (collectEdges source es (kept, bridges)) = bridges"
  by (induction es arbitrary: kept bridges)
     (auto simp: edgeIsBridge_def Let_def)

lemma extractHoles_single_ring:
  assumes "\<forall>e \<in> set (getEdges source). \<not> edgeIsBridge source e"
  shows "extractHoles source = Inr [map fst (getEdges source)]"
proof -
  obtain kept bridges where c: "collectEdges source (getEdges source) ([], []) = (kept, bridges)"
    by (cases "collectEdges source (getEdges source) ([], [])")
  have b: "bridges = []"
    using collectEdges_no_bridge [OF assms, of "[]" "[]"] c by simp
  have "filter (\<lambda>e. \<not> edgeIsBridge source e) (getEdges source) = getEdges source"
    using assms by (simp add: filter_id_conv)
  then have "map fst kept = map fst (getEdges source)"
    using collectEdges_fst [of source "getEdges source" "[]" "[]"] c
    by (simp add: comp_def)
  then show ?thesis
    by (simp add: extractHoles_def c b)
qed

text \<open>
  C2. If the bridge predicate holds for no edge of the polygon, \<open>extractHoles\<close> returns
  exactly one ring, and that ring holds the start-vertex index of every edge, in the
  traversal order of the edges.
\<close>

theorem extractHoles_no_bridges:
  assumes "\<forall>e \<in> set (getEdges source). \<not> edgeIsBridge source e"
  shows "extractHoles source = Inr [map fst (getEdges source)]"
  using assms by (rule extractHoles_single_ring)

text \<open>The triangle has no bridge: its single ring is its three start vertices in order.\<close>

theorem extractHoles_no_bridges_witness:
  "list_all (\<lambda>e. \<not> edgeIsBridge triangleSource e) (getEdges triangleSource) \<and>
   extractHoles triangleSource = Inr [[0, 1, 2]]"
proof -
  have h: "\<forall>e \<in> set (getEdges triangleSource). \<not> edgeIsBridge triangleSource e"
    by (simp add: triangleSource_def edgeIsBridge_def)
  show ?thesis
    using h extractHoles_no_bridges [OF h] by (simp add: triangleSource_def)
qed

subsection \<open>Rings and non-bridge edges\<close>

lemmas hole_eval = extractHoles_def detectFaceAndHoles_def checkBridgeEnding_def push_back_at_def
  undirectedLessThan_def swapIfGreater_def pair_less_def squarePoints_def squareIsBridge_def

lemma mset_concat_update:
  "i < length xs \<Longrightarrow> mset (concat (xs[i := xs ! i @ [v]])) = mset (concat xs) + {#v#}"
proof (induction xs arbitrary: i)
  case Nil
  then show ?case by simp
next
  case (Cons x xs)
  then show ?case by (cases i) auto
qed

lemma push_back_at_mset:
  "push_back_at info i v = Inr info' \<Longrightarrow> mset (concat info') = mset (concat info) + {#v#}"
  by (auto simp: push_back_at_def mset_concat_update split: if_splits)

lemma push_back_at_subseq:
  assumes "push_back_at info i v = Inr info'" and "\<forall>r \<in> set info. subseq r seen"
  shows "\<forall>r \<in> set info'. subseq r (seen @ [v])"
proof
  fix r assume r: "r \<in> set info'"
  from assms(1) have i: "unat i < length info" and eq: "info' = info[unat i := info ! unat i @ [v]]"
    by (auto simp: push_back_at_def split: if_splits)
  from r eq have "r = info ! unat i @ [v] \<or> r \<in> set info"
    using set_update_subset_insert [of info "unat i" "info ! unat i @ [v]"] by auto
  then show "subseq r (seen @ [v])"
  proof
    assume "r = info ! unat i @ [v]"
    moreover have "subseq (info ! unat i) seen" using assms(2) i by simp
    ultimately show ?thesis by (simp add: list_emb_append_mono)
  next
    assume "r \<in> set info"
    then have "subseq r seen" using assms(2) by simp
    then have "subseq (r @ []) (seen @ [v])" by (rule list_emb_append_mono) simp
    then show ?thesis by simp
  qed
qed

lemma detectLoop_mset:
  "detectLoop bridges es info ri = Inr rings \<Longrightarrow>
     mset (concat rings) = mset (concat info) + mset (map fst es)"
proof (induction es arbitrary: info ri)
  case Nil
  then show ?case by simp
next
  case (Cons e es)
  then show ?case
    by (auto split: if_splits sum.splits dest!: push_back_at_mset)
qed

lemma detectLoop_subseq:
  "detectLoop bridges es info ri = Inr rings \<Longrightarrow> \<forall>r \<in> set info. subseq r seen \<Longrightarrow>
     \<forall>r \<in> set rings. subseq r (seen @ map fst es)"
proof (induction es arbitrary: info ri seen)
  case Nil
  then show ?case by simp
next
  case (Cons e es)
  obtain info' where p: "push_back_at info ri (fst e) = Inr info'"
    using Cons.prems(1) by (auto split: if_splits sum.splits)
  have s: "\<forall>r \<in> set info'. subseq r (seen @ [fst e])"
    using push_back_at_subseq [OF p Cons.prems(2)] .
  have s2: "\<forall>r \<in> set (info' @ [[]]). subseq r (seen @ [fst e])"
    using s by simp
  from Cons.prems(1) p consider
      "detectLoop bridges es (info' @ [[]]) (ri + 1) = Inr rings"
    | "detectLoop bridges es info' (ri - 1) = Inr rings"
    | "detectLoop bridges es info' ri = Inr rings"
    by (auto split: if_splits)
  then show ?case
  proof cases
    case 1
    from Cons.IH [OF 1 s2] show ?thesis by simp
  next
    case 2
    from Cons.IH [OF 2 s] show ?thesis by simp
  next
    case 3
    from Cons.IH [OF 3 s] show ?thesis by simp
  qed
qed


subsection \<open>The undirected bridge set\<close>

lemma equivEdge_iff: "equivEdge a b \<longleftrightarrow> swapIfGreater a = swapIfGreater b"
  by (auto simp: equivEdge_def undirectedLessThan_def pair_less_def prod_eq_iff)

lemma equivEdge_swap: "equivEdge (a, b) (b, a)"
  by (simp add: equivEdge_iff swapIfGreater_def)

lemma undirectedLessThan_trans:
  "undirectedLessThan a b \<Longrightarrow> undirectedLessThan b c \<Longrightarrow> undirectedLessThan a c"
  by (auto simp: undirectedLessThan_def pair_less_def)

lemma undirectedLessThan_equiv_left:
  "equivEdge a b \<Longrightarrow> undirectedLessThan a c = undirectedLessThan b c"
  by (simp add: equivEdge_iff undirectedLessThan_def)

lemma undirectedLessThan_equiv_right:
  "equivEdge a b \<Longrightarrow> undirectedLessThan c a = undirectedLessThan c b"
  by (simp add: equivEdge_iff undirectedLessThan_def)

lemma undirectedLessThan_asym:
  "undirectedLessThan a b \<Longrightarrow> \<not> undirectedLessThan b a"
  by (auto simp: undirectedLessThan_def pair_less_def)

lemma set_emplace: "set (emplace e s) \<subseteq> insert e (set s) \<and> set s \<subseteq> set (emplace e s)"
  by (induction s) auto

lemma sorted_emplace:
  "sorted_wrt undirectedLessThan s \<Longrightarrow> sorted_wrt undirectedLessThan (emplace e s)"
proof (induction s)
  case Nil
  then show ?case by simp
next
  case (Cons x xs)
  have sub: "set (emplace e xs) \<subseteq> insert e (set xs)" using set_emplace by blast
  show ?case
  proof (cases "undirectedLessThan e x")
    case True
    then show ?thesis using Cons.prems by (auto intro: undirectedLessThan_trans)
  next
    case False
    then show ?thesis using Cons sub by auto
  qed
qed

lemma emplace_equiv_noop:
  "sorted_wrt undirectedLessThan s \<Longrightarrow> \<exists>x \<in> set s. equivEdge e x \<Longrightarrow> emplace e s = s"
proof (induction s)
  case Nil
  then show ?case by simp
next
  case (Cons x xs)
  from Cons.prems(2) obtain y where y: "y \<in> set (x # xs)" "equivEdge e y" by blast
  show ?case
  proof (cases "y = x")
    case True
    then show ?thesis using y by (simp add: equivEdge_def)
  next
    case False
    then have yin: "y \<in> set xs" using y by simp
    then have xy: "undirectedLessThan x y" using Cons.prems(1) by simp
    then have xe: "undirectedLessThan x e"
      using undirectedLessThan_equiv_right [OF y(2)] by simp
    then have "\<not> undirectedLessThan e x" by (rule undirectedLessThan_asym)
    moreover have "emplace e xs = xs" using Cons.IH Cons.prems(1) yin y(2) by auto
    ultimately show ?thesis using xe by simp
  qed
qed

lemma emplace_has_equiv: "\<exists>x \<in> set (emplace e s). equivEdge e x"
proof (induction s)
  case Nil
  then show ?case by (simp add: equivEdge_def undirectedLessThan_def pair_less_def)
next
  case (Cons x xs)
  have r: "equivEdge e e" by (simp add: equivEdge_iff)
  show ?case using Cons r by (auto simp: equivEdge_def)
qed

lemma collectEdges_append:
  "collectEdges source (xs @ ys) st = collectEdges source ys (collectEdges source xs st)"
  by (induction source xs st rule: collectEdges.induct) (auto simp: Let_def)

lemma collectEdges_getEdges_update:
  "collectEdges (source\<lparr>getEdges := es'\<rparr>) es st = collectEdges source es st"
  by (induction source es st rule: collectEdges.induct) (auto simp: Let_def)

lemma collectEdges_sorted:
  "sorted_wrt undirectedLessThan (snd st) \<Longrightarrow>
     sorted_wrt undirectedLessThan (snd (collectEdges source es st))"
  by (induction source es st rule: collectEdges.induct) (auto simp: Let_def sorted_emplace)

lemma collectEdges_keeps:
  "\<exists>x \<in> set bridges. equivEdge e x \<Longrightarrow>
     \<exists>x \<in> set (snd (collectEdges source es (kept, bridges))). equivEdge e x"
proof (induction es arbitrary: kept bridges)
  case Nil
  then show ?case by simp
next
  case (Cons edge es)
  obtain a b where edge: "edge = (a, b)" by (cases edge)
  have sub: "set bridges \<subseteq> set (emplace p bridges)" for p using set_emplace by blast
  have "\<exists>x \<in> set (emplace p bridges). equivEdge e x" for p
    using Cons.prems sub [of p] by blast
  then show ?case using Cons.IH Cons.prems by (simp add: edge Let_def)
qed


lemma emplace_twice:
  "equivEdge e e' \<Longrightarrow> emplace e' (emplace e s) = emplace e s"
proof (induction s)
  case Nil
  then show ?case by (simp add: equivEdge_def)
next
  case (Cons x xs)
  show ?case
  proof (cases "undirectedLessThan e x")
    case True
    then show ?thesis using Cons.prems by (simp add: equivEdge_def)
  next
    case False
    note nex = this
    show ?thesis
    proof (cases "undirectedLessThan x e")
      case True
      then have "undirectedLessThan x e'"
        using undirectedLessThan_equiv_right [OF Cons.prems] by simp
      moreover then have "\<not> undirectedLessThan e' x" by (rule undirectedLessThan_asym)
      ultimately show ?thesis using nex True Cons by simp
    next
      case False
      then have "equivEdge e x" using nex by (simp add: equivEdge_def)
      then have "equivEdge e' x" using Cons.prems by (simp add: equivEdge_iff)
      then show ?thesis using nex False by (simp add: equivEdge_def)
    qed
  qed
qed

lemma collectEdges_bridge_again:
  assumes sorted: "sorted_wrt undirectedLessThan bridges"
      and stored: "\<exists>x \<in> set bridges. equivEdge (p, q) x"
      and pq: "equivEdge (p, q) (getPointIndex source c, getPointIndex source d)"
      and br: "isBridge source (getPointIndex source c) (getPointIndex source d)"
  shows "collectEdges source ((c, d) # post) (kept, bridges) =
         collectEdges source post (kept, bridges)"
proof -
  have "\<exists>x \<in> set bridges. equivEdge (getPointIndex source c, getPointIndex source d) x"
    using stored pq by (auto simp: equivEdge_iff)
  then have "emplace (getPointIndex source c, getPointIndex source d) bridges = bridges"
    using sorted by (rule emplace_equiv_noop [rotated])
  then show ?thesis using br by (simp add: Let_def)
qed

lemma collectEdges_later_direction:
  assumes ab: "getPointIndex source a = p" "getPointIndex source b = q"
      and cd: "getPointIndex source c = q" "getPointIndex source d = p"
      and br: "isBridge source p q" "isBridge source q p"
  shows "collectEdges source (pre @ (a, b) # mid @ (c, d) # post) ([], []) =
         collectEdges source (pre @ (a, b) # mid @ (d, c) # post) ([], [])"
proof -
  obtain k0 b0 where s0: "collectEdges source pre ([], []) = (k0, b0)"
    by (cases "collectEdges source pre ([], [])")
  have sorted0: "sorted_wrt undirectedLessThan b0"
    using collectEdges_sorted [of "([], [])" source pre] s0 by simp
  let ?b1 = "emplace (p, q) b0"
  have s1: "collectEdges source [(a, b)] (k0, b0) = (k0, ?b1)"
    using ab br by (simp add: Let_def)
  obtain k2 b2 where s2: "collectEdges source mid (k0, ?b1) = (k2, b2)"
    by (cases "collectEdges source mid (k0, ?b1)")
  have sorted2: "sorted_wrt undirectedLessThan b2"
    using collectEdges_sorted [of "(k0, ?b1)" source mid] s2 sorted0 by (simp add: sorted_emplace)
  have stored2: "\<exists>x \<in> set b2. equivEdge (p, q) x"
    using collectEdges_keeps [where e = "(p, q)" and bridges = "?b1" and source = source
        and es = mid and kept = k0, OF emplace_has_equiv] s2 by simp
  have prefix: "collectEdges source (pre @ (a, b) # mid @ e # post) ([], []) =
                collectEdges source (e # post) (k2, b2)" for e
    using s0 s1 s2 collectEdges_append [of source pre "(a, b) # mid @ e # post" "([], [])"]
      collectEdges_append [of source "[(a, b)]" "mid @ e # post" "(k0, b0)"]
      collectEdges_append [of source mid "e # post" "(k0, ?b1)"]
    by simp
  have "collectEdges source ((c, d) # post) (k2, b2) = collectEdges source post (k2, b2)"
    using collectEdges_bridge_again [OF sorted2 stored2, of source c d post k2] cd br
    by (simp add: equivEdge_swap)
  moreover have "collectEdges source ((d, c) # post) (k2, b2) = collectEdges source post (k2, b2)"
    using collectEdges_bridge_again [OF sorted2 stored2, of source d c post k2] cd br
    by (simp add: equivEdge_iff)
  ultimately show ?thesis by (simp add: prefix)
qed

text \<open>
  C7, as the code has it. The point pairs (p, q) and (q, p) are equivalent for the bridge
  set, so that storing (q, p) after (p, q) leaves the set as it is: only the direction seen
  first is stored. Hence the result of \<open>extractHoles\<close> does not depend on the direction in
  which an edge between the two points of a bridge is traversed again later: once the
  bridge edge from \<open>a\<close> to \<open>b\<close> has been seen, a later bridge edge \<open>(c, d)\<close> back from
  point \<open>q\<close> to point \<open>p\<close> can be turned round without changing the rings.
\<close>

theorem extractHoles_bridge_stored_once:
  assumes ab: "getPointIndex source a = p" "getPointIndex source b = q"
      and cd: "getPointIndex source c = q" "getPointIndex source d = p"
      and br: "isBridge source p q" "isBridge source q p"
  shows "\<not> undirectedLessThan (p, q) (q, p) \<and> \<not> undirectedLessThan (q, p) (p, q) \<and>
         emplace (q, p) (emplace (p, q) bridges) = emplace (p, q) bridges \<and>
         extractHoles (source\<lparr>getEdges := pre @ (a, b) # mid @ (c, d) # post\<rparr>) =
         extractHoles (source\<lparr>getEdges := pre @ (a, b) # mid @ (d, c) # post\<rparr>)"
proof -
  have e: "equivEdge (p, q) (q, p)" by (rule equivEdge_swap)
  have "extractHoles (source\<lparr>getEdges := pre @ (a, b) # mid @ (c, d) # post\<rparr>) =
        extractHoles (source\<lparr>getEdges := pre @ (a, b) # mid @ (d, c) # post\<rparr>)"
    using collectEdges_later_direction [OF ab cd br, of pre mid post]
    by (simp add: extractHoles_def collectEdges_getEdges_update)
  then show ?thesis
    using e emplace_twice [OF e, of bridges] by (simp add: equivEdge_def)
qed

text \<open>In the square with a hole, the second bridge edge (6, 7) is turned round to (7, 6).\<close>

theorem extractHoles_bridge_stored_once_witness:
  "extractHoles (squareWithHole
      \<lparr>getEdges := [(0, 1), (1, 2), (2, 3), (3, 4), (4, 5), (5, 6), (7, 6), (7, 8), (8, 9), (9, 0)]\<rparr>) =
   Inr [[0, 7, 8, 9], [2, 3, 4, 5]]"
proof -
  have v: "extractHoles squareWithHole = Inr [[0, 7, 8, 9], [2, 3, 4, 5]]"
    by (simp add: squareWithHole_def hole_eval)
  have "extractHoles (squareWithHole
      \<lparr>getEdges := [(0, 1)] @ (1, 2) # [(2, 3), (3, 4), (4, 5), (5, 6)] @ (6, 7) # [(7, 8), (8, 9), (9, 0)]\<rparr>) =
     extractHoles (squareWithHole
      \<lparr>getEdges := [(0, 1)] @ (1, 2) # [(2, 3), (3, 4), (4, 5), (5, 6)] @ (7, 6) # [(7, 8), (8, 9), (9, 0)]\<rparr>)"
    using extractHoles_bridge_stored_once [where source = squareWithHole and a = 1 and p = 1
        and b = 2 and q = 4 and c = 6 and d = 7 and pre = "[(0, 1)]"
        and mid = "[(2, 3), (3, 4), (4, 5), (5, 6)]" and post = "[(7, 8), (8, 9), (9, 0)]"]
    by (simp add: squareWithHole_def squarePoints_def squareIsBridge_def)
  moreover have "squareWithHole
      \<lparr>getEdges := [(0, 1)] @ (1, 2) # [(2, 3), (3, 4), (4, 5), (5, 6)] @ (6, 7) # [(7, 8), (8, 9), (9, 0)]\<rparr>
      = squareWithHole"
    by (simp add: squareWithHole_def)
  ultimately show ?thesis using v by simp
qed

text \<open>
  C7 as it is stated fails: the rings do depend on the direction that is seen first. Traversed from the outer ring,
  the square gives its outer ring first and then the hole. The same polygon traversed from
  a vertex of the hole stores the bridge as (4, 1) and gives the hole ring first. With the
  non-bridge edges in the same order and only the two bridge edges turned round, the first
  edge ends at the end point of the stored bridge, the ring index is decremented below 0,
  and the next edge writes outside the ring list.
\<close>

theorem extractHoles_bridge_direction_counterexample:
  "extractHoles squareWithHole = Inr [[0, 7, 8, 9], [2, 3, 4, 5]] \<and>
   extractHoles squareFromHole = Inr [[2, 3, 4, 5], [7, 8, 9, 0]] \<and>
   extractHoles squareBridgeFlipped = Inl OutOfRange"
  by (simp add: squareWithHole_def squareFromHole_def squareBridgeFlipped_def hole_eval unat_gt_0)

text \<open>
  C10, as the code has it. When \<open>extractHoles\<close> returns, its rings taken together hold
  the start-vertex indices of the non-bridge edges, each exactly once and none for a bridge
  edge (equality of multisets), so the total index count is the number of non-bridge edges;
  every ring lists its indices in traversal order (it is a subsequence of the traversal).
\<close>

theorem extractHoles_rings_partition:
  assumes "extractHoles source = Inr rings"
  shows "mset (concat rings) = mset (map fst (nonBridgeEdges source)) \<and>
         length (concat rings) = length (nonBridgeEdges source) \<and>
         (\<forall>r \<in> set rings. subseq r (map fst (nonBridgeEdges source)))"
proof -
  obtain kept bridges where c: "collectEdges source (getEdges source) ([], []) = (kept, bridges)"
    by (cases "collectEdges source (getEdges source) ([], [])")
  have k: "map fst kept = map fst (nonBridgeEdges source)"
    using collectEdges_fst [of source "getEdges source" "[]" "[]"] c
    by (simp add: nonBridgeEdges_def comp_def)
  have m: "mset (concat rings) = mset (map fst kept)"
    using assms c detectLoop_mset [of bridges kept "[[]]" 0 rings]
    by (auto simp: extractHoles_def detectFaceAndHoles_def split: if_splits)
  have s: "\<forall>r \<in> set rings. subseq r (map fst kept)"
    using assms c detectLoop_subseq [of bridges kept "[[]]" 0 rings "[]"]
    by (auto simp: extractHoles_def detectFaceAndHoles_def split: if_splits)
  have "length (concat rings) = length (map fst kept)"
    using m by (metis size_mset)
  then show ?thesis using m s k by simp
qed

text \<open>The square with a hole: eight non-bridge edges, eight indices in two rings.\<close>

theorem extractHoles_rings_partition_witness:
  "mset (concat [[0, 7, 8, 9], [2, 3, 4, 5]]) = mset (map fst (nonBridgeEdges squareWithHole)) \<and>
   length (concat [[0, 7, 8, 9], [2, 3, 4, 5 :: int]]) = length (nonBridgeEdges squareWithHole)"
proof -
  have v: "extractHoles squareWithHole = Inr [[0, 7, 8, 9], [2, 3, 4, 5]]"
    by (simp add: squareWithHole_def hole_eval)
  show ?thesis using extractHoles_rings_partition [OF v] by blast
qed

text \<open>
  C10 as it is stated fails: the concatenation of the rings is not the traversal sequence
  itself. The outer ring of the square is interrupted by the hole, so the indices 7, 8, 9
  of the outer ring come before the indices 2, 3, 4, 5 of the hole.
\<close>

theorem extractHoles_concat_counterexample:
  "extractHoles squareWithHole = Inr [[0, 7, 8, 9], [2, 3, 4, 5]] \<and>
   map fst (nonBridgeEdges squareWithHole) = [0, 2, 3, 4, 5, 7, 8, 9] \<and>
   concat [[0, 7, 8, 9], [2, 3, 4, 5]] \<noteq> map fst (nonBridgeEdges squareWithHole)"
  by (simp add: squareWithHole_def hole_eval nonBridgeEdges_def edgeIsBridge_def)

section \<open>Properties of the shape conversion\<close>




text \<open>
  Both overloads return a helper whenever the rings of the face are found and the helper
  has a UV set for every handle, as its constructor provides.
\<close>

lemma forEachUVSet_returns:
  "u + length uvHandles \<le> length (uvSets ch) \<Longrightarrow>
     \<exists>ch'. forEachUVSet uvHandles u func ch = Inr ch'"
proof (induction uvHandles arbitrary: u ch)
  case Nil
  then show ?case by simp
next
  case (Cons uvh rest)
  show ?case
  proof (cases uvh)
    case None
    then show ?thesis using Cons.IH [of "Suc u" ch] Cons.prems by simp
  next
    case (Some h)
    let ?ch1 = "ch\<lparr>uvSets := (uvSets ch)[u := func h (uvSets ch ! u)]\<rparr>"
    have "Suc u + length rest \<le> length (uvSets ?ch1)" using Cons.prems by simp
    from Cons.IH [OF this] show ?thesis using Some Cons.prems by simp
  qed
qed

lemma emitRings_uvSets: "uvSets (emitRings prim rings ch) = uvSets ch"
  by (induction rings arbitrary: ch) simp_all

lemma convertPolygon_returns:
  assumes "extractHoles (GeoFaceHoleSource prim) = Inr rings"
      and "length uvHandles \<le> length (uvSets ch)"
  shows "\<exists>ch'. convertPolygon ch prim uvHandles = Inr ch'"
  using assms forEachUVSet_returns [of 0 uvHandles
      "(emitRings prim rings ch)\<lparr>holes := holes (emitRings prim rings ch) @ [0xFFFFFFFF]\<rparr>"
      "polygonUVs prim rings"]
  by (simp add: convertPolygon_def Let_def emitRings_uvSets)

lemma convertPolygon_PolygonIterator_returns:
  assumes "length uvHandles \<le> length (uvSets ch)"
  shows "\<exists>ch'. convertPolygon_PolygonIterator ch pit uvHandles = Inr ch'"
  using assms forEachUVSet_returns [of 0 uvHandles
      "ch\<lparr> faceCounts := faceCounts ch @ [of_int (pit_getVertexCount pit)],
           indices := indices ch @ map (\<lambda>i. of_int (pit_getPointIndex pit i))
                                       (rev [0..pit_getVertexCount pit - 1]) \<rparr>"
      "soupUVs pit (rev [0..pit_getVertexCount pit - 1])"]
  by (simp add: convertPolygon_PolygonIterator_def Let_def)










subsection \<open>The random seed\<close>

lemma unat_3_times_plus:
  fixes i :: "32 word"
  assumes "3 * unat i + k < 2 ^ 32"
  shows "unat (3 * i + of_nat k) = 3 * unat i + k"
proof (rule of_nat_inverse)
  show "word_of_nat (3 * unat i + k) = 3 * i + of_nat k" by simp
  show "3 * unat i + k < 2 ^ LENGTH(32)" using assms by simp
qed

lemma centroidLoop_sums:
  assumes "\<forall>i \<in> set idxs. 3 * unat i + 2 < length coords" and "length coords \<le> 2 ^ 32"
  shows "centroidLoop ops coords idxs (c0, c1, c2) =
     Inr (foldl (d_add ops) c0 (map (\<lambda>i. coords ! (3 * unat i + 0)) idxs),
          foldl (d_add ops) c1 (map (\<lambda>i. coords ! (3 * unat i + 1)) idxs),
          foldl (d_add ops) c2 (map (\<lambda>i. coords ! (3 * unat i + 2)) idxs))"
  using assms(1)
proof (induction idxs arbitrary: c0 c1 c2)
  case Nil
  then show ?case by simp
next
  case (Cons i idxs)
  have b: "3 * unat i + 2 < length coords" using Cons.prems by simp
  then have w: "3 * unat i + 2 < 2 ^ 32" using assms(2) by simp
  have u0: "unat (3 * i) = 3 * unat i"
    using unat_3_times_plus [of i 0] w by simp
  have u1: "unat (3 * i + 1) = 3 * unat i + 1"
    using unat_3_times_plus [of i 1] w by simp
  have u2: "unat (3 * i + 2) = 3 * unat i + 2"
    using unat_3_times_plus [of i 2] w by simp
  show ?case using Cons b by (simp add: u0 u1 u2)
qed

lemma centroidSeed_indices:
  assumes a: "indices ch = indices ch'"
  shows "centroidSeed ops coords ch = centroidSeed ops coords ch'"
proof -
  have g: "getCentroid ops coords ch = getCentroid ops coords ch'"
    unfolding getCentroid_def a ..
  show ?thesis unfolding centroidSeed_def g ..
qed

text \<open>
  C4. If the primitive attribute of the random-seed key exists with integer storage, the
  seed is the value that its handle reads at the offset of the first primitive. Otherwise
  (the indices being those of points of \<open>coords\<close>) the seed is the low 32 bits of the hashes
  of the three coordinates of the centroid, combined by \<open>hash_combine\<close> from 0, where each
  coordinate of the centroid is the mean of that coordinate over the referenced points.
  Without the attribute, two helpers with the same indices over the same coordinates get
  the same seed, and so do two helpers whose indices refer to the same coordinates in the
  same order.
\<close>

theorem getRandomSeed_spec:
  "(seedRef = Some ref \<and> getStorageClass ref = GA_STORECLASS_INT \<longrightarrow>
      getRandomSeed ops seedRef primOffset coords ch = Inr (seedH_get ref primOffset)) \<and>
   ((seedRef = None \<or> (seedRef = Some ref \<and> getStorageClass ref \<noteq> GA_STORECLASS_INT)) \<and>
    list_all (\<lambda>i. 3 * unat i + 2 < length coords) (indices ch) \<and> length coords \<le> 2 ^ 32 \<longrightarrow>
      getRandomSeed ops seedRef primOffset coords ch =
        Inr (ucast (hash_combine
                     (hash_combine
                        (hash_combine 0 (std_hash ops (meanCoord ops coords (indices ch) 0)))
                        (std_hash ops (meanCoord ops coords (indices ch) 1)))
                     (std_hash ops (meanCoord ops coords (indices ch) 2))))) \<and>
   (indices ch = indices ch' \<longrightarrow>
      getRandomSeed ops None primOffset coords ch = getRandomSeed ops None primOffset' coords ch') \<and>
   (list_all (\<lambda>i. 3 * unat i + 2 < length coords) (indices ch) \<and>
    list_all (\<lambda>i. 3 * unat i + 2 < length coords) (indices ch') \<and> length coords \<le> 2 ^ 32 \<and>
    referencedCoords coords (indices ch) 0 = referencedCoords coords (indices ch') 0 \<and>
    referencedCoords coords (indices ch) 1 = referencedCoords coords (indices ch') 1 \<and>
    referencedCoords coords (indices ch) 2 = referencedCoords coords (indices ch') 2 \<longrightarrow>
      getRandomSeed ops None primOffset coords ch = getRandomSeed ops None primOffset' coords ch')"
proof -
  have closed: "getRandomSeed ops sr off coords h =
        Inr (ucast (hash_combine
                     (hash_combine
                        (hash_combine 0 (std_hash ops (meanCoord ops coords (indices h) 0)))
                        (std_hash ops (meanCoord ops coords (indices h) 1)))
                     (std_hash ops (meanCoord ops coords (indices h) 2))))"
    if s: "sr = None \<or> (sr = Some ref \<and> getStorageClass ref \<noteq> GA_STORECLASS_INT)"
      and r: "list_all (\<lambda>i. 3 * unat i + 2 < length coords) (indices h)"
      and l: "length coords \<le> 2 ^ 32" for sr off and h :: "'a ConversionHelper"
  proof -
    from s have f: "getRandomSeed ops sr off coords h = centroidSeed ops coords h"
      by (auto simp: getRandomSeed_def)
    from r have r': "\<forall>i \<in> set (indices h). 3 * unat i + 2 < length coords"
      unfolding list_all_iff .
    have "centroidLoop ops coords (indices h) (d_zero ops, d_zero ops, d_zero ops) =
       Inr (foldl (d_add ops) (d_zero ops) (map (\<lambda>i. coords ! (3 * unat i + 0)) (indices h)),
            foldl (d_add ops) (d_zero ops) (map (\<lambda>i. coords ! (3 * unat i + 1)) (indices h)),
            foldl (d_add ops) (d_zero ops) (map (\<lambda>i. coords ! (3 * unat i + 2)) (indices h)))"
      using r' l by (rule centroidLoop_sums)
    then have g: "getCentroid ops coords h =
        Inr (meanCoord ops coords (indices h) 0, meanCoord ops coords (indices h) 1,
             meanCoord ops coords (indices h) 2)"
      unfolding getCentroid_def meanCoord_def referencedCoords_def by simp
    show ?thesis unfolding f centroidSeed_def g by (simp add: Let_def)
  qed
  have same: "meanCoord ops coords (indices ch) k = meanCoord ops coords (indices ch') k"
    if "referencedCoords coords (indices ch) k = referencedCoords coords (indices ch') k" for k
  proof -
    from that have "length (referencedCoords coords (indices ch) k) =
                    length (referencedCoords coords (indices ch') k)" by simp
    then have "length (indices ch) = length (indices ch')"
      by (simp add: referencedCoords_def)
    then show ?thesis using that by (simp add: meanCoord_def)
  qed
  show ?thesis
proof (intro conjI impI)
  assume "seedRef = Some ref \<and> getStorageClass ref = GA_STORECLASS_INT"
  then show "getRandomSeed ops seedRef primOffset coords ch = Inr (seedH_get ref primOffset)"
    by (simp add: getRandomSeed_def)
next
  assume a: "(seedRef = None \<or> (seedRef = Some ref \<and> getStorageClass ref \<noteq> GA_STORECLASS_INT)) \<and>
    list_all (\<lambda>i. 3 * unat i + 2 < length coords) (indices ch) \<and> length coords \<le> 2 ^ 32"
  from a have s: "seedRef = None \<or> (seedRef = Some ref \<and> getStorageClass ref \<noteq> GA_STORECLASS_INT)"
    by (rule conjunct1)
  from a have r: "list_all (\<lambda>i. 3 * unat i + 2 < length coords) (indices ch)"
    by (rule conjunct1 [OF conjunct2])
  from a have l: "length coords \<le> 2 ^ 32"
    by (rule conjunct2 [OF conjunct2])
  from closed [OF s r l]
  show "getRandomSeed ops seedRef primOffset coords ch =
        Inr (ucast (hash_combine
                     (hash_combine
                        (hash_combine 0 (std_hash ops (meanCoord ops coords (indices ch) 0)))
                        (std_hash ops (meanCoord ops coords (indices ch) 1)))
                     (std_hash ops (meanCoord ops coords (indices ch) 2))))" .
next
  assume "indices ch = indices ch'"
  then have "centroidSeed ops coords ch = centroidSeed ops coords ch'"
    by (rule centroidSeed_indices)
  then show "getRandomSeed ops None primOffset coords ch = getRandomSeed ops None primOffset' coords ch'"
    by (simp add: getRandomSeed_def)
next
  assume b: "list_all (\<lambda>i. 3 * unat i + 2 < length coords) (indices ch) \<and>
    list_all (\<lambda>i. 3 * unat i + 2 < length coords) (indices ch') \<and> length coords \<le> 2 ^ 32 \<and>
    referencedCoords coords (indices ch) 0 = referencedCoords coords (indices ch') 0 \<and>
    referencedCoords coords (indices ch) 1 = referencedCoords coords (indices ch') 1 \<and>
    referencedCoords coords (indices ch) 2 = referencedCoords coords (indices ch') 2"
  then have r: "list_all (\<lambda>i. 3 * unat i + 2 < length coords) (indices ch)"
    and r': "list_all (\<lambda>i. 3 * unat i + 2 < length coords) (indices ch')"
    and l: "length coords \<le> 2 ^ 32"
    and e0: "referencedCoords coords (indices ch) 0 = referencedCoords coords (indices ch') 0"
    and e1: "referencedCoords coords (indices ch) 1 = referencedCoords coords (indices ch') 1"
    and e2: "referencedCoords coords (indices ch) 2 = referencedCoords coords (indices ch') 2"
    by blast+
  have n: "(None :: GA_ROAttributeRef option) = None \<or>
           ((None :: GA_ROAttributeRef option) = Some ref \<and> getStorageClass ref \<noteq> GA_STORECLASS_INT)"
    by simp
  show "getRandomSeed ops None primOffset coords ch = getRandomSeed ops None primOffset' coords ch'"
    unfolding closed [OF n r l] closed [OF n r' l] same [OF e0] same [OF e1] same [OF e2] ..
qed
qed

text \<open>
  The triangle (0, 0, 0), (3, 0, 0), (0, 6, 9) has the centroid (1, 2, 3); an integer seed
  attribute of value 42 is used as it is.
\<close>

theorem getRandomSeed_spec_witness:
  "getRandomSeed intOps (Some intSeedAttribute) 7 triangleCoords triangleHelper = Inr 42 \<and>
   getRandomSeed intOps None 7 triangleCoords triangleHelper = Inr 4216901971 \<and>
   getRandomSeed intOps None 7 twinCoords triangleHelper =
     getRandomSeed intOps None 9 twinCoords twinHelper"
proof -
  have m: "meanCoord intOps triangleCoords [2, 1, 0] 0 = 1"
    "meanCoord intOps triangleCoords [2, 1, 0] (Suc 0) = 2"
    "meanCoord intOps triangleCoords [2, 1, 0] 2 = 3"
    by (simp_all add: meanCoord_def referencedCoords_def intOps_def triangleCoords_def)
  have h: "(ucast (hash_combine (hash_combine (hash_combine 0 1) 2) 3) :: 32 word) = 4216901971"
    by (simp add: hash_combine_def)
  have i: "indices triangleHelper = [2, 1, 0]" by (simp add: triangleHelper_def)
  have s: "std_hash intOps = of_int" by (simp add: intOps_def)
  have r: "list_all (\<lambda>i. 3 * unat i + 2 < length triangleCoords) (indices triangleHelper)"
    by (simp add: triangleHelper_def triangleCoords_def)
  have l: "length triangleCoords \<le> 2 ^ 32" by (simp add: triangleCoords_def)
  have a: "getRandomSeed intOps (Some intSeedAttribute) 7 triangleCoords triangleHelper = Inr 42"
    using getRandomSeed_spec [of "Some intSeedAttribute" intSeedAttribute intOps 7 triangleCoords
        triangleHelper]
    by (simp add: intSeedAttribute_def)
  have b: "getRandomSeed intOps None 7 triangleCoords triangleHelper = Inr 4216901971"
    using getRandomSeed_spec [of None intSeedAttribute intOps 7 triangleCoords triangleHelper] r l
    by (simp add: i m s h)
  have c: "getRandomSeed intOps None 7 twinCoords triangleHelper =
           getRandomSeed intOps None 9 twinCoords twinHelper"
    using getRandomSeed_spec [of None intSeedAttribute intOps 7 twinCoords triangleHelper
        twinHelper 9, THEN conjunct2, THEN conjunct2, THEN conjunct2]
    by (simp add: twinCoords_def twinHelper_def triangleHelper_def triangleCoords_def
        referencedCoords_def)
  from a b c show ?thesis by simp
qed

section \<open>Properties of the runtime context and of the callbacks\<close>

text \<open>
  One pass of \<^verbatim>\<open>scheduleRecook\<close> calls \<^verbatim>\<open>forceRecook\<close> once on every Assign Node bound to the
  path, and on no other node.
\<close>

lemma scheduleRecook_nodes:
  assumes "scheduleRecook ops OP_PLD_ASSIGN rpk (Some children) = Some children'"
  shows "length children' = length children \<and>
         (\<forall>i < length children.
            forceRecookCalls (children' ! i) =
              forceRecookCalls (children ! i) +
                (if operatorName (children ! i) = OP_PLD_ASSIGN \<and>
                    path_equal ops (getRPK (children ! i)) rpk
                 then 1 else 0) \<and>
            operatorName (children' ! i) = operatorName (children ! i) \<and>
            getRPK (children' ! i) = getRPK (children ! i))"
  using assms by (auto simp: scheduleRecook_def visit_def)

text \<open>
  C1. A call of \<open>getResolveMap\<close> looks the string of the path up and returns the map of
  the lookup. When the lookup has the status MISS, the call flushes the engine cache
  exactly once and, unless the build is a test build, makes exactly one recook-scheduling
  pass, for the requested path: when the host has a director, the pass calls \<open>forceRecook\<close>
  once on every node whose operator is the Assign operator and whose rule package equals
  the requested path as a path, calls it on no other node, and leaves the operators and
  the rule packages of all nodes as they are. In a test build the nodes stay as they are.
  When the status is HIT, the call does neither of the two.
\<close>

theorem getResolveMap_side_effects:
  assumes "cache_get (mResolveMapCache ctx) (path_string ops rpk) = ((m, status), cache')"
      and "getResolveMap ops PLD_TEST_EXPORTS OP_PLD_ASSIGN cache_get rpk ctx = (result, ctx')"
  shows "result = m \<and> mResolveMapCache ctx' = cache' \<and>
         (status = MISS \<longrightarrow>
            flushAllCalls ctx' = Suc (flushAllCalls ctx) \<and>
            scheduleRecookCalls ctx' =
              scheduleRecookCalls ctx @ (if PLD_TEST_EXPORTS then [] else [rpk]) \<and>
            (PLD_TEST_EXPORTS \<longrightarrow> OPgetDirector ctx' = OPgetDirector ctx) \<and>
            (\<not> PLD_TEST_EXPORTS \<longrightarrow>
               (OPgetDirector ctx = None \<longrightarrow> OPgetDirector ctx' = None) \<and>
               (\<forall>children. OPgetDirector ctx = Some children \<longrightarrow>
                  (\<exists>children'. OPgetDirector ctx' = Some children' \<and>
                     length children' = length children \<and>
                     (\<forall>i < length children.
                        forceRecookCalls (children' ! i) =
                          forceRecookCalls (children ! i) +
                            (if operatorName (children ! i) = OP_PLD_ASSIGN \<and>
                                path_equal ops (getRPK (children ! i)) rpk
                             then 1 else 0) \<and>
                        operatorName (children' ! i) = operatorName (children ! i) \<and>
                        getRPK (children' ! i) = getRPK (children ! i)))))) \<and>
         (status = HIT \<longrightarrow>
            flushAllCalls ctx' = flushAllCalls ctx \<and>
            scheduleRecookCalls ctx' = scheduleRecookCalls ctx \<and>
            OPgetDirector ctx' = OPgetDirector ctx)"
proof -
  have r: "result = m" and c: "mResolveMapCache ctx' = cache'"
    using assms by (auto simp: getResolveMap_def Let_def)
  have hit: "flushAllCalls ctx' = flushAllCalls ctx \<and>
             scheduleRecookCalls ctx' = scheduleRecookCalls ctx \<and>
             OPgetDirector ctx' = OPgetDirector ctx" if "status = HIT"
    using assms that by (auto simp: getResolveMap_def Let_def)
  have miss: "flushAllCalls ctx' = Suc (flushAllCalls ctx) \<and>
              scheduleRecookCalls ctx' =
                scheduleRecookCalls ctx @ (if PLD_TEST_EXPORTS then [] else [rpk])"
    and test: "PLD_TEST_EXPORTS \<longrightarrow> OPgetDirector ctx' = OPgetDirector ctx"
    and pass: "\<not> PLD_TEST_EXPORTS \<longrightarrow>
                 OPgetDirector ctx' = scheduleRecook ops OP_PLD_ASSIGN rpk (OPgetDirector ctx)"
    if "status = MISS"
    using assms that by (auto simp: getResolveMap_def Let_def)
  have nodes: "(OPgetDirector ctx = None \<longrightarrow> OPgetDirector ctx' = None) \<and>
               (\<forall>children. OPgetDirector ctx = Some children \<longrightarrow>
                  (\<exists>children'. OPgetDirector ctx' = Some children' \<and>
                     length children' = length children \<and>
                     (\<forall>i < length children.
                        forceRecookCalls (children' ! i) =
                          forceRecookCalls (children ! i) +
                            (if operatorName (children ! i) = OP_PLD_ASSIGN \<and>
                                path_equal ops (getRPK (children ! i)) rpk
                             then 1 else 0) \<and>
                        operatorName (children' ! i) = operatorName (children ! i) \<and>
                        getRPK (children' ! i) = getRPK (children ! i))))"
    if s: "status = MISS" and t: "\<not> PLD_TEST_EXPORTS"
  proof (intro conjI impI allI)
    assume "OPgetDirector ctx = None"
    then show "OPgetDirector ctx' = None"
      using pass [OF s] t by (simp add: scheduleRecook_def)
  next
    fix children
    assume d: "OPgetDirector ctx = Some children"
    then have e: "OPgetDirector ctx' = Some (map (visit ops OP_PLD_ASSIGN rpk) children)"
      using pass [OF s] t by (simp add: scheduleRecook_def)
    have "scheduleRecook ops OP_PLD_ASSIGN rpk (Some children) =
            Some (map (visit ops OP_PLD_ASSIGN rpk) children)"
      by (simp add: scheduleRecook_def)
    from scheduleRecook_nodes [OF this] e
    show "\<exists>children'. OPgetDirector ctx' = Some children' \<and>
                     length children' = length children \<and>
                     (\<forall>i < length children.
                        forceRecookCalls (children' ! i) =
                          forceRecookCalls (children ! i) +
                            (if operatorName (children ! i) = OP_PLD_ASSIGN \<and>
                                path_equal ops (getRPK (children ! i)) rpk
                             then 1 else 0) \<and>
                        operatorName (children' ! i) = operatorName (children ! i) \<and>
                        getRPK (children' ! i) = getRPK (children ! i))"
      by blast
  qed
  from r c hit miss test nodes show ?thesis by blast
qed

text \<open>
  The package \<open>dir/a.rpk\<close>, not seen before: one flush and one pass, which forces the recook
  of the Assign Node bound to \<open>dir//a.rpk\<close>, the same path, and of no other node. The same
  package again: a HIT, and the counts stay.
\<close>

theorem getResolveMap_side_effects_witness:
  "flushAllCalls (snd (getResolveMap posixPaths False ''pldAssign'' exampleCacheGet ''dir/a.rpk''
     exampleContext)) = 1 \<and>
   scheduleRecookCalls (snd (getResolveMap posixPaths False ''pldAssign'' exampleCacheGet
     ''dir/a.rpk'' exampleContext)) = [''dir/a.rpk''] \<and>
   map forceRecookCalls (the (OPgetDirector (snd (getResolveMap posixPaths False ''pldAssign''
     exampleCacheGet ''dir/a.rpk'' exampleContext)))) = [1, 0, 0] \<and>
   flushAllCalls (snd (getResolveMap posixPaths False ''pldAssign'' exampleCacheGet ''dir/a.rpk''
     (snd (getResolveMap posixPaths False ''pldAssign'' exampleCacheGet ''dir/a.rpk''
        exampleContext)))) = 1 \<and>
   scheduleRecookCalls (snd (getResolveMap posixPaths False ''pldAssign'' exampleCacheGet
     ''dir/a.rpk'' (snd (getResolveMap posixPaths False ''pldAssign'' exampleCacheGet ''dir/a.rpk''
        exampleContext)))) = [''dir/a.rpk''] \<and>
   map forceRecookCalls (the (OPgetDirector (snd (getResolveMap posixPaths False ''pldAssign''
     exampleCacheGet ''dir/a.rpk'' (snd (getResolveMap posixPaths False ''pldAssign''
        exampleCacheGet ''dir/a.rpk'' exampleContext)))))) = [1, 0, 0]"
proof -
  let ?first = "getResolveMap posixPaths False ''pldAssign'' exampleCacheGet ''dir/a.rpk''
                  exampleContext"
  let ?second = "getResolveMap posixPaths False ''pldAssign'' exampleCacheGet ''dir/a.rpk''
                   (snd ?first)"
  let ?nodes = "[\<lparr> operatorName = ''pldAssign'', getRPK = ''dir//a.rpk'', forceRecookCalls = 0 \<rparr>,
          \<lparr> operatorName = ''pldAssign'', getRPK = ''dir/b.rpk'', forceRecookCalls = 0 \<rparr>,
          \<lparr> operatorName = ''box'', getRPK = ''dir/a.rpk'', forceRecookCalls = 0 \<rparr>]"
  have miss: "exampleCacheGet (mResolveMapCache exampleContext) (path_string posixPaths ''dir/a.rpk'')
                = ((9, MISS), [''dir/a.rpk''])"
    by (simp add: exampleCacheGet_def exampleContext_def posixPaths_def)
  have dir: "OPgetDirector exampleContext = Some ?nodes"
    by (simp add: exampleContext_def)
  have eq: "path_equal posixPaths ''dir//a.rpk'' ''dir/a.rpk''"
    "\<not> path_equal posixPaths ''dir/b.rpk'' ''dir/a.rpk''"
    by (simp_all add: posixPaths_def pathElements_def)
  note t1 = getResolveMap_side_effects [where cache_get = exampleCacheGet
        and ctx = exampleContext and rpk = "''dir/a.rpk''" and m = 9 and status = MISS
        and cache' = "[''dir/a.rpk'']" and PLD_TEST_EXPORTS = False and ops = posixPaths
        and OP_PLD_ASSIGN = "''pldAssign''" and result = "fst ?first" and ctx' = "snd ?first",
        OF miss]
  have one: "flushAllCalls (snd ?first) = 1 \<and> scheduleRecookCalls (snd ?first) = [''dir/a.rpk''] \<and>
             mResolveMapCache (snd ?first) = [''dir/a.rpk'']"
    using t1 by (simp add: exampleContext_def)
  from t1 dir obtain children' where c: "OPgetDirector (snd ?first) = Some children'"
    and l: "length children' = length ?nodes"
    and f: "\<forall>i < length ?nodes.
              forceRecookCalls (children' ! i) =
                forceRecookCalls (?nodes ! i) +
                  (if operatorName (?nodes ! i) = ''pldAssign'' \<and>
                      path_equal posixPaths (getRPK (?nodes ! i)) ''dir/a.rpk''
                   then 1 else 0) \<and>
              operatorName (children' ! i) = operatorName (?nodes ! i) \<and>
              getRPK (children' ! i) = getRPK (?nodes ! i)"
    by auto
  have f0: "forceRecookCalls (children' ! 0) = 1"
    using f [rule_format, of 0] eq by simp
  have f1: "forceRecookCalls (children' ! 1) = 0"
    using f [rule_format, of 1] eq by simp
  have f2: "forceRecookCalls (children' ! 2) = 0"
    using f [rule_format, of 2] by simp
  from l obtain x y z where xyz: "children' = [x, y, z]"
    by (auto simp: length_Suc_conv)
  have nodes1: "map forceRecookCalls (the (OPgetDirector (snd ?first))) = [1, 0, 0]"
    using f0 f1 f2 by (simp add: c xyz)
  have hit: "exampleCacheGet (mResolveMapCache (snd ?first)) (path_string posixPaths ''dir/a.rpk'')
               = ((9, HIT), [''dir/a.rpk''])"
    using one by (simp add: exampleCacheGet_def posixPaths_def)
  note t2 = getResolveMap_side_effects [where cache_get = exampleCacheGet
        and ctx = "snd ?first" and rpk = "''dir/a.rpk''" and m = 9 and status = HIT
        and cache' = "[''dir/a.rpk'']" and PLD_TEST_EXPORTS = False and ops = posixPaths
        and OP_PLD_ASSIGN = "''pldAssign''" and result = "fst ?second" and ctx' = "snd ?second",
        OF hit]
  have two: "flushAllCalls (snd ?second) = 1 \<and> scheduleRecookCalls (snd ?second) = [''dir/a.rpk''] \<and>
             OPgetDirector (snd ?second) = OPgetDirector (snd ?first)"
    using t2 one by simp
  from one nodes1 two show ?thesis by simp
qed

text \<open>
  C9. \<open>generateError\<close>, called with the index of a slot of the status array, stores the
  status in that slot and in no other, logs the message once at warning severity, leaves
  the rest of the converter as it is and returns \<open>STATUS_OK\<close>. The three report callbacks
  return \<open>STATUS_OK\<close> and leave the converter unchanged.
\<close>

theorem error_and_report_callbacks:
  "(isIndex < length (mStatuses mc) \<longrightarrow>
      generateError isIndex status message mc =
        Inr (STATUS_OK,
             mc\<lparr> mStatuses := (mStatuses mc)[isIndex := status],
                  prt_log := prt_log mc @ [(message, LOG_WARNING)] \<rparr>) \<and>
      (mStatuses mc)[isIndex := status] ! isIndex = status \<and>
      length ((mStatuses mc)[isIndex := status]) = length (mStatuses mc) \<and>
      (\<forall>j. j \<noteq> isIndex \<longrightarrow> (mStatuses mc)[isIndex := status] ! j = mStatuses mc ! j)) \<and>
   cgaReportBool isIndex shapeID key b mc = (STATUS_OK, mc) \<and>
   cgaReportFloat isIndex shapeID key d mc = (STATUS_OK, mc) \<and>
   cgaReportString isIndex shapeID key s mc = (STATUS_OK, mc)"
  by (simp add: generateError_def cgaReportBool_def cgaReportFloat_def cgaReportString_def Let_def)

text \<open>The second of three initial shapes fails: its slot holds the error, one warning is logged.\<close>

theorem error_and_report_callbacks_witness:
  "generateError 1 STATUS_UNSPECIFIED_ERROR ''generate failed'' exampleConverter =
     Inr (STATUS_OK,
          \<lparr> mStatuses = [STATUS_OK, STATUS_UNSPECIFIED_ERROR, STATUS_OK],
            prt_log = [(''generate failed'', LOG_WARNING)] \<rparr>) \<and>
   cgaReportBool 1 7 ''report'' True exampleConverter = (STATUS_OK, exampleConverter)"
  using error_and_report_callbacks [of 1 exampleConverter STATUS_UNSPECIFIED_ERROR
      "''generate failed''" 7 "''report''" True "0 :: int" "''s''"]
  by (simp add: exampleConverter_def)

section \<open>Properties of the encoder\<close>

subsection \<open>Materials\<close>

lemma convertKey_other: "k \<noteq> key \<Longrightarrow> convertKey prtxAttr key aBuilder k = aBuilder k"
  by (simp add: convertKey_def split: PrimitiveType.split)

lemma convertKey_same:
  "getType prtxAttr key \<notin> {PT_UNDEFINED, PT_BLIND_DATA, PT_BLIND_DATA_ARRAY} \<Longrightarrow>
     convertKey prtxAttr key aBuilder key = convertKey prtxAttr key Map.empty key"
  by (simp add: convertKey_def split: PrimitiveType.split)

lemma convertKey_unsupported:
  "getType prtxAttr key \<in> {PT_UNDEFINED, PT_BLIND_DATA, PT_BLIND_DATA_ARRAY} \<Longrightarrow>
     convertKey prtxAttr key aBuilder = aBuilder"
  by (auto simp: convertKey_def)

lemma convertMaterial_absent:
  "k \<notin> set keys \<or> k \<in> set (MATERIAL_ATTRIBUTE_BLACKLIST v) \<or>
   getType prtxAttr k \<in> {PT_UNDEFINED, PT_BLIND_DATA, PT_BLIND_DATA_ARRAY} \<Longrightarrow>
     convertMaterialToAttributeMap v aBuilder prtxAttr keys k = aBuilder k"
proof (induction keys arbitrary: aBuilder)
  case Nil
  then show ?case by simp
next
  case (Cons key keys)
  have rest: "convertMaterialToAttributeMap v b prtxAttr keys k = b k" for b
    using Cons.IH Cons.prems by auto
  show ?case
  proof (cases "key \<in> set (MATERIAL_ATTRIBUTE_BLACKLIST v)")
    case True
    then show ?thesis using rest by simp
  next
    case False
    have "convertKey prtxAttr key aBuilder k = aBuilder k"
    proof (cases "k = key")
      case True
      then have "getType prtxAttr key \<in> {PT_UNDEFINED, PT_BLIND_DATA, PT_BLIND_DATA_ARRAY}"
        using Cons.prems False by auto
      then show ?thesis by (simp only: convertKey_unsupported)
    next
      case False
      then show ?thesis by (rule convertKey_other)
    qed
    then show ?thesis using False rest by simp
  qed
qed

lemma convertMaterial_present:
  assumes "k \<in> set keys" and "k \<notin> set (MATERIAL_ATTRIBUTE_BLACKLIST v)"
      and "getType prtxAttr k \<notin> {PT_UNDEFINED, PT_BLIND_DATA, PT_BLIND_DATA_ARRAY}"
  shows "convertMaterialToAttributeMap v aBuilder prtxAttr keys k =
           convertKey prtxAttr k Map.empty k"
  using assms(1)
proof (induction keys arbitrary: aBuilder)
  case Nil
  then show ?case by simp
next
  case (Cons key keys)
  show ?case
  proof (cases "k \<in> set keys")
    case True
    then show ?thesis using Cons.IH by simp
  next
    case False
    then have key: "key = k" using Cons.prems by simp
    have "convertMaterialToAttributeMap v (convertKey prtxAttr k aBuilder) prtxAttr keys k =
            convertKey prtxAttr k aBuilder k"
      using False by (simp add: convertMaterial_absent)
    then show ?thesis using key assms(2) convertKey_same [OF assms(3), of aBuilder] by simp
  qed
qed

text \<open>
  C8. A key of the blacklist is never set by the conversion, so that it is absent from a
  map built from an empty builder. A key that is given to the conversion, is not in the
  blacklist and has one of the supported types is set to its value from the material, in
  the type of the material: booleans as truth values, numbers and strings as they are,
  arrays element by element, a texture as the string of its URI and a texture array as the
  strings of its URIs. A key of another type is left as the builder had it.
\<close>

theorem convertMaterialToAttributeMap_blacklist:
  "(key \<in> set (MATERIAL_ATTRIBUTE_BLACKLIST v) \<longrightarrow>
      convertMaterialToAttributeMap v aBuilder prtxAttr keys key = aBuilder key \<and>
      convertMaterialToAttributeMap v Map.empty prtxAttr keys key = None) \<and>
   (key \<in> set keys \<and> key \<notin> set (MATERIAL_ATTRIBUTE_BLACKLIST v) \<longrightarrow>
      convertMaterialToAttributeMap v aBuilder prtxAttr keys key =
        (case getType prtxAttr key of
           PT_BOOL \<Rightarrow> Some (BoolValue (getBool prtxAttr key = PRTX_TRUE))
         | PT_FLOAT \<Rightarrow> Some (FloatValue (getFloat prtxAttr key))
         | PT_INT \<Rightarrow> Some (IntValue (getInt prtxAttr key))
         | PT_STRING \<Rightarrow> Some (StringValue (getString prtxAttr key))
         | PT_BOOL_ARRAY \<Rightarrow>
             Some (BoolArrayValue (map (\<lambda>b. b = PRTX_TRUE) (getBoolArray prtxAttr key)))
         | PT_INT_ARRAY \<Rightarrow> Some (IntArrayValue (getIntArray prtxAttr key))
         | PT_FLOAT_ARRAY \<Rightarrow> Some (FloatArrayValue (getFloatArray prtxAttr key))
         | PT_STRING_ARRAY \<Rightarrow> Some (StringArrayValue (getStringArray prtxAttr key))
         | PT_TEXTURE \<Rightarrow> Some (StringValue (getURI (getTexture prtxAttr key)))
         | PT_TEXTURE_ARRAY \<Rightarrow>
             Some (StringArrayValue (map getURI (getTextureArray prtxAttr key)))
         | _ \<Rightarrow> aBuilder key))"
proof (intro conjI impI)
  assume "key \<in> set (MATERIAL_ATTRIBUTE_BLACKLIST v)"
  then show "convertMaterialToAttributeMap v aBuilder prtxAttr keys key = aBuilder key"
    and "convertMaterialToAttributeMap v Map.empty prtxAttr keys key = None"
    by (simp_all add: convertMaterial_absent)
next
  assume a: "key \<in> set keys \<and> key \<notin> set (MATERIAL_ATTRIBUTE_BLACKLIST v)"
  show "convertMaterialToAttributeMap v aBuilder prtxAttr keys key =
        (case getType prtxAttr key of
           PT_BOOL \<Rightarrow> Some (BoolValue (getBool prtxAttr key = PRTX_TRUE))
         | PT_FLOAT \<Rightarrow> Some (FloatValue (getFloat prtxAttr key))
         | PT_INT \<Rightarrow> Some (IntValue (getInt prtxAttr key))
         | PT_STRING \<Rightarrow> Some (StringValue (getString prtxAttr key))
         | PT_BOOL_ARRAY \<Rightarrow>
             Some (BoolArrayValue (map (\<lambda>b. b = PRTX_TRUE) (getBoolArray prtxAttr key)))
         | PT_INT_ARRAY \<Rightarrow> Some (IntArrayValue (getIntArray prtxAttr key))
         | PT_FLOAT_ARRAY \<Rightarrow> Some (FloatArrayValue (getFloatArray prtxAttr key))
         | PT_STRING_ARRAY \<Rightarrow> Some (StringArrayValue (getStringArray prtxAttr key))
         | PT_TEXTURE \<Rightarrow> Some (StringValue (getURI (getTexture prtxAttr key)))
         | PT_TEXTURE_ARRAY \<Rightarrow>
             Some (StringArrayValue (map getURI (getTextureArray prtxAttr key)))
         | _ \<Rightarrow> aBuilder key)"
  proof (cases "getType prtxAttr key \<in> {PT_UNDEFINED, PT_BLIND_DATA, PT_BLIND_DATA_ARRAY}")
    case True
    then have "convertMaterialToAttributeMap v aBuilder prtxAttr keys key = aBuilder key"
      by (simp add: convertMaterial_absent)
    then show ?thesis using True by auto
  next
    case False
    from a have "convertMaterialToAttributeMap v aBuilder prtxAttr keys key =
                   convertKey prtxAttr key Map.empty key"
      using convertMaterial_present [OF _ _ False] by simp
    then show ?thesis using False
      by (cases "getType prtxAttr key") (simp_all add: convertKey_def)
  qed
qed

text \<open>
  The material with the keys \<open>color.r\<close>, \<open>diffuseColor\<close> and \<open>bumpmap.su\<close>: only
  \<open>diffuseColor\<close> is kept, with its float value.
\<close>

theorem convertMaterialToAttributeMap_blacklist_witness:
  "convertMaterialToAttributeMap 2 Map.empty exampleMaterial (getKeys exampleMaterial) ''color.r'' = None \<and>
   convertMaterialToAttributeMap 2 Map.empty exampleMaterial (getKeys exampleMaterial) ''bumpmap.su'' = None \<and>
   convertMaterialToAttributeMap 2 Map.empty exampleMaterial (getKeys exampleMaterial) ''diffuseColor''
     = Some (FloatValue 7)"
proof -
  have b1: "''color.r'' \<in> set (MATERIAL_ATTRIBUTE_BLACKLIST 2)"
    by (simp add: MATERIAL_ATTRIBUTE_BLACKLIST_def)
  have b2: "''bumpmap.su'' \<in> set (MATERIAL_ATTRIBUTE_BLACKLIST 2)"
    by (simp add: MATERIAL_ATTRIBUTE_BLACKLIST_def)
  have b3: "''diffuseColor'' \<notin> set (MATERIAL_ATTRIBUTE_BLACKLIST 2)"
    by (simp add: MATERIAL_ATTRIBUTE_BLACKLIST_def)
  have k: "''diffuseColor'' \<in> set (getKeys exampleMaterial)"
    by (simp add: exampleMaterial_def)
  have t: "getType exampleMaterial ''diffuseColor'' = PT_FLOAT"
    "getFloat exampleMaterial ''diffuseColor'' = 7"
    by (simp_all add: exampleMaterial_def)
  show ?thesis
    using convertMaterialToAttributeMap_blacklist [of "''color.r''" 2 Map.empty exampleMaterial
        "getKeys exampleMaterial"]
      convertMaterialToAttributeMap_blacklist [of "''bumpmap.su''" 2 Map.empty exampleMaterial
        "getKeys exampleMaterial"]
      convertMaterialToAttributeMap_blacklist [of "''diffuseColor''" 2 Map.empty exampleMaterial
        "getKeys exampleMaterial"]
      b1 b2 b3 k t
    by simp
qed


subsection \<open>Serialized geometry\<close>

text \<open>The first pass: the maximum of the UV sets needed over all meshes.\<close>

lemma scanMesh_max:
  "maxNumUVSets (scanMesh v mesh mat c) = max (maxNumUVSets c) (neededUVSets v (mesh, mat))"
  by (simp add: scanMesh_def neededUVSets_def Let_def)

lemma scanMeshes_max:
  "scanMeshes v meshes mats c = Inr c' \<Longrightarrow>
     maxNumUVSets c' = foldl max (maxNumUVSets c) (map (neededUVSets v) (zip meshes mats)) \<and>
     map fst (zip meshes mats) = meshes"
proof (induction v meshes mats c rule: scanMeshes.induct)
  case (1 v mats c)
  then show ?case by simp
next
  case (2 v mesh meshes c)
  then show ?case by simp
next
  case (3 v mesh meshes mat mats c)
  then show ?case by (simp add: scanMesh_max)
qed

lemma scanGeometries_max:
  "scanGeometries v geometries materials c = Inr c' \<Longrightarrow>
     maxNumUVSets c' =
       foldl max (maxNumUVSets c) (map (neededUVSets v) (meshMaterialPairs geometries materials)) \<and>
     map fst (meshMaterialPairs geometries materials) = concat geometries"
proof (induction v geometries materials c rule: scanGeometries.induct)
  case (1 v materials c)
  then show ?case by (simp add: meshMaterialPairs_def)
next
  case (2 v geo geometries c)
  then show ?case by simp
next
  case (3 v geo geometries mats materials c)
  then obtain c1 where c1: "scanMeshes v geo mats c = Inr c1"
    and rest: "scanGeometries v geometries materials c1 = Inr c'"
    by (auto split: sum.splits)
  from scanMeshes_max [OF c1] "3.IH" [OF c1 rest] show ?case
    by (simp add: meshMaterialPairs_def)
qed

lemma foldl_max_Max:
  fixes a :: "'a :: linorder"
  shows "foldl max a xs = Max (set (a # xs))"
proof -
  have "foldl max a xs = fold max xs a"
    by (simp add: foldl_conv_fold max.commute)
  then show ?thesis using Max.set_eq_fold [of a xs] by simp
qed


text \<open>
  \<open>scanValidTextures\<close> returns the number of UV sets that the material requires: 0 when no
  row of the table has a valid texture in the material, and else one more than the highest
  UV set of such a row.
\<close>

lemma scanLoop_fold:
  "scanLoop mat table h =
     fold max (map (\<lambda>(key, index, uvSet). uvSet)
                (filter (\<lambda>(key, index, uvSet).
                           index < length (getTextureArray mat key) \<and>
                           isValid (getTextureArray mat key ! index)) table)) h"
  by (induction mat table h rule: scanLoop.induct) (simp_all add: Let_def max.commute)

lemma scanValidTextures_required:
  "unat (scanValidTextures v mat) = requiredUVSets v mat"
proof -
  let ?xs = "validTextureUVSets v mat"
  have loop: "scanLoop mat (TEXTURE_UV_MAPPINGS v) (- 1) = fold max ?xs (- 1)"
    by (simp add: scanLoop_fold validTextureUVSets_def)
  have sub: "set (map f (filter P ys)) \<subseteq> set (map f ys)"
    for f :: "string \<times> nat \<times> int \<Rightarrow> int" and P ys
    by auto
  have "set ?xs \<subseteq> set (map (\<lambda>(key, index, uvSet). uvSet) (TEXTURE_UV_MAPPINGS v))"
    unfolding validTextureUVSets_def by (rule sub)
  moreover have "\<forall>x \<in> set (map (\<lambda>(key, index, uvSet). uvSet) (TEXTURE_UV_MAPPINGS v)).
                   0 \<le> x \<and> x \<le> 9"
    by (auto simp: TEXTURE_UV_MAPPINGS_def)
  ultimately have bound: "\<forall>x \<in> set ?xs. 0 \<le> x \<and> x \<le> 9"
    by blast
  show ?thesis
  proof (cases "?xs = []")
    case True
    then show ?thesis by (simp add: scanValidTextures_def loop requiredUVSets_def)
  next
    case False
    define M where "M = Max (set ?xs)"
    from False have "M \<in> set ?xs" unfolding M_def by (intro Max_in) simp_all
    with bound have m: "0 \<le> M" "M \<le> 9" by auto
    have "fold max ?xs (- 1) = Max (set ((- 1) # ?xs))"
      by (rule Max.set_eq_fold [symmetric])
    also have "\<dots> = max (- 1) M" using False by (simp add: M_def)
    also have "\<dots> = M" using m by simp
    finally have l: "scanLoop mat (TEXTURE_UV_MAPPINGS v) (- 1) = M" by (simp add: loop)
    have "(of_int (M + 1) :: 32 word) = of_nat (nat (M + 1))" using m by simp
    moreover have "nat (M + 1) < 2 ^ LENGTH(32)" using m by simp
    ultimately have u: "unat (of_int (M + 1) :: 32 word) = nat (M + 1)"
      by (simp only: of_nat_inverse)
    have sv: "scanValidTextures v mat = of_int (M + 1)"
      using m by (simp add: scanValidTextures_def l)
    have rq: "requiredUVSets v mat = nat M + 1"
      using False by (simp add: requiredUVSets_def M_def)
    show ?thesis unfolding sv rq u using m by simp
  qed
qed

lemma unat_max: "unat (max a b) = max (unat a) (unat b)"
  by (simp add: max_def word_le_nat_alt)

lemma unat_foldl_max: "unat (foldl max a xs) = foldl max (unat a) (map unat xs)"
  by (induction xs arbitrary: a) (simp_all add: unat_max)

lemma unat_neededUVSets:
  "unat (neededUVSets v p) =
     (case p of (mesh, mat) \<Rightarrow> max (unat (getUVSetsCount mesh)) (requiredUVSets v mat))"
  by (cases p) (simp add: neededUVSets_def unat_max scanValidTextures_required)

lemma scanGeometries_channelCount:
  assumes "scanGeometries v geometries materials
             \<lparr> numCoords = 0, numNormalCoords = 0, numCounts = 0, numHoles = 0, numIndices = 0,
               maxNumUVSets = 0 \<rparr> = Inr c"
  shows "unat (maxNumUVSets c) = channelCount v geometries materials"
proof -
  from scanGeometries_max [OF assms]
  have "maxNumUVSets c =
          foldl max 0 (map (neededUVSets v) (meshMaterialPairs geometries materials))"
    by simp
  then have "unat (maxNumUVSets c) =
          foldl max 0 (map unat (map (neededUVSets v) (meshMaterialPairs geometries materials)))"
    by (simp add: unat_foldl_max)
  also have "map unat (map (neededUVSets v) (meshMaterialPairs geometries materials)) =
          map (\<lambda>(mesh, mat). max (unat (getUVSetsCount mesh)) (requiredUVSets v mat))
            (meshMaterialPairs geometries materials)"
    by (simp add: unat_neededUVSets)
  finally show ?thesis by (simp add: channelCount_def foldl_max_Max)
qed

text \<open>
  The second pass: the loop over the UV sets appends to every channel it visits, and to
  no other; the loop over the faces leaves the channels alone.
\<close>

lemma copyUVSets_effect:
  assumes "copyUVSets nd mesh us st = Inr st'" and "distinct us"
  shows "length (sg_uvs (sg st')) = length (sg_uvs (sg st)) \<and>
         length (sg_uvCounts (sg st')) = length (sg_uvCounts (sg st)) \<and>
         length (sg_uvIndices (sg st')) = length (sg_uvIndices (sg st)) \<and>
         length (uvIndexBases st') = length (uvIndexBases st) \<and>
         (\<forall>c. sg_uvs (sg st') ! c =
                (if c \<in> set us then sg_uvs (sg st) ! c @ mesh_src mesh c else sg_uvs (sg st) ! c) \<and>
              sg_uvCounts (sg st') ! c =
                (if c \<in> set us then sg_uvCounts (sg st) ! c @ mesh_faceUVCounts mesh c
                 else sg_uvCounts (sg st) ! c) \<and>
              sg_uvIndices (sg st') ! c =
                (if c \<in> set us
                 then sg_uvIndices (sg st) ! c @ mesh_uvIndices mesh c (uvIndexBases st ! c)
                 else sg_uvIndices (sg st) ! c) \<and>
              uvIndexBases st' ! c =
                (if c \<in> set us
                 then uvIndexBases st ! c + of_nat (length (mesh_src mesh c)) div 2
                 else uvIndexBases st ! c))"
  using assms
proof (induction us arbitrary: st)
  case Nil
  then show ?case by simp
next
  case (Cons u us)
  let ?st1 = "st\<lparr> sg := (sg st)
                 \<lparr> sg_uvs := (sg_uvs (sg st))[u := sg_uvs (sg st) ! u @ mesh_src mesh u],
                   sg_uvCounts := (sg_uvCounts (sg st))
                     [u := sg_uvCounts (sg st) ! u @ mesh_faceUVCounts mesh u],
                   sg_uvIndices := (sg_uvIndices (sg st))
                     [u := sg_uvIndices (sg st) ! u @ mesh_uvIndices mesh u (uvIndexBases st ! u)] \<rparr>,
               uvIndexBases := (uvIndexBases st)
                 [u := uvIndexBases st ! u + of_nat (length (mesh_src mesh u)) div 2] \<rparr>"
  from Cons.prems(1) have inr: "u < length (sg_uvs (sg st))" "u < length (sg_uvCounts (sg st))"
      "u < length (sg_uvIndices (sg st))" "u < length (uvIndexBases st)"
    and rest: "copyUVSets nd mesh us ?st1 = Inr st'"
    by (auto split: if_splits)
  from Cons.prems(2) have d: "distinct us" and nu: "u \<notin> set us" by simp_all
  note ih = Cons.IH [OF rest d]
  show ?case
  proof (intro conjI allI)
    show "length (sg_uvs (sg st')) = length (sg_uvs (sg st))" using ih by simp
    show "length (sg_uvCounts (sg st')) = length (sg_uvCounts (sg st))" using ih by simp
    show "length (sg_uvIndices (sg st')) = length (sg_uvIndices (sg st))" using ih by simp
    show "length (uvIndexBases st') = length (uvIndexBases st)" using ih by simp
  next
    fix c
    show "sg_uvs (sg st') ! c =
            (if c \<in> set (u # us) then sg_uvs (sg st) ! c @ mesh_src mesh c else sg_uvs (sg st) ! c)"
      using ih nu inr by (cases "c = u") auto
    show "sg_uvCounts (sg st') ! c =
            (if c \<in> set (u # us) then sg_uvCounts (sg st) ! c @ mesh_faceUVCounts mesh c
             else sg_uvCounts (sg st) ! c)"
      using ih nu inr by (cases "c = u") auto
    show "sg_uvIndices (sg st') ! c =
            (if c \<in> set (u # us)
             then sg_uvIndices (sg st) ! c @ mesh_uvIndices mesh c (uvIndexBases st ! c)
             else sg_uvIndices (sg st) ! c)"
      using ih nu inr by (cases "c = u") auto
    show "uvIndexBases st' ! c =
            (if c \<in> set (u # us)
             then uvIndexBases st ! c + of_nat (length (mesh_src mesh c)) div 2
             else uvIndexBases st ! c)"
      using ih nu inr by (cases "c = u") auto
  qed
qed

lemma copyFace_uv:
  "sg_uvs (sg (copyFace mesh fi st)) = sg_uvs (sg st) \<and>
   sg_uvCounts (sg (copyFace mesh fi st)) = sg_uvCounts (sg st) \<and>
   sg_uvIndices (sg (copyFace mesh fi st)) = sg_uvIndices (sg st) \<and>
   uvIndexBases (copyFace mesh fi st) = uvIndexBases st"
  by (simp add: copyFace_def Let_def)

lemma copyFaces_uv:
  "sg_uvs (sg (fold (copyFace mesh) fs st)) = sg_uvs (sg st) \<and>
   sg_uvCounts (sg (fold (copyFace mesh) fs st)) = sg_uvCounts (sg st) \<and>
   sg_uvIndices (sg (fold (copyFace mesh) fs st)) = sg_uvIndices (sg st) \<and>
   uvIndexBases (fold (copyFace mesh) fs st) = uvIndexBases st"
  by (induction fs arbitrary: st) (simp_all add: copyFace_uv)


lemma copyMesh_effect:
  assumes "copyMesh nd mesh st = Inr st'"
      and "length (sg_uvs (sg st)) = n"
  shows "length (sg_uvs (sg st')) = n \<and>
         length (sg_uvCounts (sg st')) = length (sg_uvCounts (sg st)) \<and>
         length (sg_uvIndices (sg st')) = length (sg_uvIndices (sg st)) \<and>
         length (uvIndexBases st') = length (uvIndexBases st) \<and>
         (\<forall>c < n.
            sg_uvs (sg st') ! c = sg_uvs (sg st) ! c @ mesh_src mesh c \<and>
            sg_uvCounts (sg st') ! c = sg_uvCounts (sg st) ! c @ mesh_faceUVCounts mesh c \<and>
            sg_uvIndices (sg st') ! c =
              sg_uvIndices (sg st) ! c @ mesh_uvIndices mesh c (uvIndexBases st ! c) \<and>
            uvIndexBases st' ! c = uvIndexBases st ! c + of_nat (length (mesh_src mesh c)) div 2)"
proof -
  let ?st1 = "st\<lparr> sg := (sg st)\<lparr> sg_coords := sg_coords (sg st) @ getVertexCoords mesh,
                 sg_normals := sg_normals (sg st) @ getVertexNormalsCoords mesh \<rparr> \<rparr>"
  from assms(1) obtain st2 where
    uv: "copyUVSets nd mesh [0..<length (sg_uvs (sg ?st1))] ?st1 = Inr st2"
    and st': "st' = (fold (copyFace mesh) [0..<unat (getFaceCount mesh)] st2)
        \<lparr> vertexIndexBase := vertexIndexBase (fold (copyFace mesh) [0..<unat (getFaceCount mesh)] st2)
             + of_nat (length (getVertexCoords mesh)) div 3,
          normalIndexBase := normalIndexBase (fold (copyFace mesh) [0..<unat (getFaceCount mesh)] st2)
             + of_nat (length (getVertexNormalsCoords mesh)) div 3,
          faceIndexBase := faceIndexBase (fold (copyFace mesh) [0..<unat (getFaceCount mesh)] st2)
             + getFaceCount mesh \<rparr>"
    by (auto simp: copyMesh_def Let_def split: sum.splits)
  have e: "length (sg_uvs (sg st2)) = length (sg_uvs (sg ?st1)) \<and>
         length (sg_uvCounts (sg st2)) = length (sg_uvCounts (sg ?st1)) \<and>
         length (sg_uvIndices (sg st2)) = length (sg_uvIndices (sg ?st1)) \<and>
         length (uvIndexBases st2) = length (uvIndexBases ?st1) \<and>
         (\<forall>c. sg_uvs (sg st2) ! c =
                (if c \<in> set [0..<length (sg_uvs (sg ?st1))]
                 then sg_uvs (sg ?st1) ! c @ mesh_src mesh c else sg_uvs (sg ?st1) ! c) \<and>
              sg_uvCounts (sg st2) ! c =
                (if c \<in> set [0..<length (sg_uvs (sg ?st1))]
                 then sg_uvCounts (sg ?st1) ! c @ mesh_faceUVCounts mesh c
                 else sg_uvCounts (sg ?st1) ! c) \<and>
              sg_uvIndices (sg st2) ! c =
                (if c \<in> set [0..<length (sg_uvs (sg ?st1))]
                 then sg_uvIndices (sg ?st1) ! c @ mesh_uvIndices mesh c (uvIndexBases ?st1 ! c)
                 else sg_uvIndices (sg ?st1) ! c) \<and>
              uvIndexBases st2 ! c =
                (if c \<in> set [0..<length (sg_uvs (sg ?st1))]
                 then uvIndexBases ?st1 ! c + of_nat (length (mesh_src mesh c)) div 2
                 else uvIndexBases ?st1 ! c))"
    by (rule copyUVSets_effect [OF uv]) simp
  have f: "sg_uvs (sg st') = sg_uvs (sg st2)" "sg_uvCounts (sg st') = sg_uvCounts (sg st2)"
    "sg_uvIndices (sg st') = sg_uvIndices (sg st2)" "uvIndexBases st' = uvIndexBases st2"
    by (simp_all add: st' copyFaces_uv)
  show ?thesis using e assms(2) by (simp add: f)
qed

lemma copyMeshes_effect:
  assumes "copyMeshes nd meshes st = Inr st'"
      and "length (sg_uvs (sg st)) = n"
  shows "length (sg_uvs (sg st')) = n \<and>
         length (sg_uvCounts (sg st')) = length (sg_uvCounts (sg st)) \<and>
         length (sg_uvIndices (sg st')) = length (sg_uvIndices (sg st)) \<and>
         (\<forall>c < n.
            sg_uvs (sg st') ! c = sg_uvs (sg st) ! c @ concat (map (\<lambda>mesh. mesh_src mesh c) meshes) \<and>
            sg_uvCounts (sg st') ! c =
              sg_uvCounts (sg st) ! c @ concat (map (\<lambda>mesh. mesh_faceUVCounts mesh c) meshes) \<and>
            sg_uvIndices (sg st') ! c =
              sg_uvIndices (sg st) ! c @ channelIndices c (uvIndexBases st ! c) meshes)"
  using assms
proof (induction meshes arbitrary: st)
  case Nil
  then show ?case by simp
next
  case (Cons mesh meshes)
  from Cons.prems(1) obtain st1 where m: "copyMesh nd mesh st = Inr st1"
    and rest: "copyMeshes nd meshes st1 = Inr st'"
    by (auto split: sum.splits)
  note one = copyMesh_effect [OF m Cons.prems(2)]
  from one have n1: "length (sg_uvs (sg st1)) = n" by simp
  note ih = Cons.IH [OF rest n1]
  show ?case using one ih by simp
qed

lemma copyMeshes_append:
  "copyMeshes nd (xs @ ys) st =
     (case copyMeshes nd xs st of Inl err \<Rightarrow> Inl err | Inr st' \<Rightarrow> copyMeshes nd ys st')"
  by (induction xs arbitrary: st) (simp_all split: sum.splits)

lemma copyGeometries_concat:
  "copyGeometries nd geometries st = copyMeshes nd (concat geometries) st"
  by (induction geometries arbitrary: st) (simp_all add: copyMeshes_append split: sum.splits)

text \<open>
  \<open>serializeGeometry\<close> returns whenever the materials cover the geometries and, in a build
  that keeps the assertion of the source, the face counts of every channel of every mesh
  are as many as its faces.
\<close>

lemma copyUVSets_returns:
  assumes "\<forall>u \<in> set us. u < n"
      and "nd \<or> (\<forall>u \<in> set us. length (mesh_faceUVCounts mesh u) = unat (getFaceCount mesh))"
      and "length (sg_uvs (sg st)) = n" "length (sg_uvCounts (sg st)) = n"
          "length (sg_uvIndices (sg st)) = n" "length (uvIndexBases st) = n"
  shows "\<exists>st'. copyUVSets nd mesh us st = Inr st'"
  using assms
proof (induction us arbitrary: st)
  case Nil
  then show ?case by simp
next
  case (Cons u us)
  let ?st1 = "st\<lparr> sg := (sg st)
                 \<lparr> sg_uvs := (sg_uvs (sg st))[u := sg_uvs (sg st) ! u @ mesh_src mesh u],
                   sg_uvCounts := (sg_uvCounts (sg st))
                     [u := sg_uvCounts (sg st) ! u @ mesh_faceUVCounts mesh u],
                   sg_uvIndices := (sg_uvIndices (sg st))
                     [u := sg_uvIndices (sg st) ! u @ mesh_uvIndices mesh u (uvIndexBases st ! u)] \<rparr>,
               uvIndexBases := (uvIndexBases st)
                 [u := uvIndexBases st ! u + of_nat (length (mesh_src mesh u)) div 2] \<rparr>"
  from Cons.prems(2)
  have a: "nd \<or> (\<forall>u \<in> set us. length (mesh_faceUVCounts mesh u) = unat (getFaceCount mesh))"
    and b: "nd \<or> length (mesh_faceUVCounts mesh u) = unat (getFaceCount mesh)"
    by auto
  have "\<exists>st'. copyUVSets nd mesh us ?st1 = Inr st'"
    using Cons.prems(1,3-) a by (intro Cons.IH) simp_all
  then show ?case using Cons.prems(1,3-) b by auto
qed

lemma scanMeshes_returns:
  "length meshes \<le> length mats \<Longrightarrow> \<exists>c'. scanMeshes v meshes mats c = Inr c'"
  by (induction v meshes mats c rule: scanMeshes.induct) simp_all

lemma scanGeometries_returns:
  "materialsCover geometries materials \<Longrightarrow> \<exists>c'. scanGeometries v geometries materials c = Inr c'"
proof (induction v geometries materials c rule: scanGeometries.induct)
  case (1 v materials c)
  then show ?case by simp
next
  case (2 v geo geometries c)
  then show ?case by simp
next
  case (3 v geo geometries mats materials c)
  from "3.prems" have g: "length geo \<le> length mats"
    and r: "materialsCover geometries materials"
    by simp_all
  from scanMeshes_returns [OF g] obtain c1 where c1: "scanMeshes v geo mats c = Inr c1" by blast
  from "3.IH" [OF c1 r] show ?case by (simp add: c1)
qed

lemma copyMesh_returns:
  assumes "nd \<or> (\<forall>u < n. length (mesh_faceUVCounts mesh u) = unat (getFaceCount mesh))"
      and "length (sg_uvs (sg st)) = n" "length (sg_uvCounts (sg st)) = n"
          "length (sg_uvIndices (sg st)) = n" "length (uvIndexBases st) = n"
  shows "\<exists>st'. copyMesh nd mesh st = Inr st'"
proof -
  let ?st1 = "st\<lparr> sg := (sg st)\<lparr> sg_coords := sg_coords (sg st) @ getVertexCoords mesh,
                 sg_normals := sg_normals (sg st) @ getVertexNormalsCoords mesh \<rparr> \<rparr>"
  from assms(1)
  have "nd \<or> (\<forall>u \<in> set [0..<n]. length (mesh_faceUVCounts mesh u) = unat (getFaceCount mesh))"
    by auto
  then have "\<exists>st2. copyUVSets nd mesh [0..<n] ?st1 = Inr st2"
    using assms(2-) by (intro copyUVSets_returns [where n = n]) simp_all
  then show ?thesis using assms(2) by (auto simp: copyMesh_def Let_def)
qed

lemma copyMeshes_returns:
  assumes "nd \<or> (\<forall>mesh \<in> set meshes. \<forall>u < n.
             length (mesh_faceUVCounts mesh u) = unat (getFaceCount mesh))"
      and "length (sg_uvs (sg st)) = n" "length (sg_uvCounts (sg st)) = n"
          "length (sg_uvIndices (sg st)) = n" "length (uvIndexBases st) = n"
  shows "\<exists>st'. copyMeshes nd meshes st = Inr st'"
  using assms
proof (induction meshes arbitrary: st)
  case Nil
  then show ?case by simp
next
  case (Cons mesh meshes)
  from Cons.prems(1)
  have a: "nd \<or> (\<forall>u < n. length (mesh_faceUVCounts mesh u) = unat (getFaceCount mesh))"
    and b: "nd \<or> (\<forall>mesh \<in> set meshes. \<forall>u < n.
             length (mesh_faceUVCounts mesh u) = unat (getFaceCount mesh))"
    by auto
  have "\<exists>st1. copyMesh nd mesh st = Inr st1"
    using a Cons.prems(2-) by (rule copyMesh_returns)
  then obtain st1 where m: "copyMesh nd mesh st = Inr st1" by blast
  note e = copyMesh_effect [OF m Cons.prems(2)]
  have "\<exists>st'. copyMeshes nd meshes st1 = Inr st'"
    using b Cons.prems(2-) e by (intro Cons.IH) simp_all
  then show ?case by (simp add: m)
qed

text \<open>What a mesh contributes to a channel beyond its own UV sets.\<close>

lemma backfill_from_set0:
  assumes "0 < getUVSetsCount mesh" and "unat (getUVSetsCount mesh) \<le> uvSet"
  shows "mesh_src mesh uvSet = getUVCoords mesh 0 \<and>
         mesh_faceUVCounts mesh uvSet = getFaceUVCounts mesh 0 \<and>
         mesh_uvIndices mesh uvSet uvIndexBase =
           concat (map (\<lambda>fi. map (\<lambda>vi. uvIndexBase +
                                 getFaceUVIndices mesh fi 0 (unat (getFaceUVCounts mesh 0 ! fi) - vi - 1))
                              [0..<unat (getFaceUVCounts mesh 0 ! fi)])
                     [0..<unat (of_nat (length (getFaceUVCounts mesh 0)) :: 32 word)])"
  using assms
  by (simp add: mesh_src_def mesh_uvs_def mesh_uvs0_def mesh_faceUVCounts_def
      mesh_faceUVCounts0_def mesh_uvIndices_def mesh_faceUVIdx_def mesh_faceUVIdx0_def Let_def)



text \<open>
  C5. Let the materials cover the geometries and, in a build that keeps the assertion of
  the source, let the face counts of every channel of every mesh be as many as its faces.
  Then \<open>serializeGeometry\<close> returns a geometry. Its number of UV channels is the maximum,
  over all meshes with their materials, of the larger of the UV-set count of the mesh and
  the number of UV sets that the valid textures of its material require; every mesh has a
  material in the pairing. Each channel holds, mesh after mesh, the coordinates, the
  per-face counts and the indices that the mesh contributes, the indices offset by the
  running index base of the channel. To a channel beyond its own UV sets, a mesh with at
  least one UV set contributes a copy of its UV set 0: the coordinates, the per-face
  counts, and the indices of every face in reversed order, offset by the index base. A
  mesh without UV sets, which has no UV set 0 to copy, contributes no coordinates and the
  count 0 for each of its faces.
\<close>

theorem serializeGeometry_uv_channels:
  assumes "materialsCover geometries materials"
      and "NDEBUG \<or> (\<forall>mesh \<in> set (concat geometries).
             \<forall>uvSet < channelCount v geometries materials.
               length (mesh_faceUVCounts mesh uvSet) = unat (getFaceCount mesh))"
  shows "\<exists>s. serializeGeometry NDEBUG v geometries materials = Inr s \<and>
         length (sg_uvs s) = channelCount v geometries materials \<and>
         map fst (meshMaterialPairs geometries materials) = concat geometries \<and>
         length (sg_uvCounts s) = length (sg_uvs s) \<and>
         length (sg_uvIndices s) = length (sg_uvs s) \<and>
         (\<forall>uvSet < length (sg_uvs s).
            sg_uvs s ! uvSet = concat (map (\<lambda>mesh. mesh_src mesh uvSet) (concat geometries)) \<and>
            sg_uvCounts s ! uvSet =
              concat (map (\<lambda>mesh. mesh_faceUVCounts mesh uvSet) (concat geometries)) \<and>
            sg_uvIndices s ! uvSet = channelIndices uvSet 0 (concat geometries)) \<and>
         (\<forall>mesh \<in> set (concat geometries). \<forall>uvSet uvIndexBase.
            0 < getUVSetsCount mesh \<and> unat (getUVSetsCount mesh) \<le> uvSet \<longrightarrow>
              mesh_src mesh uvSet = getUVCoords mesh 0 \<and>
              mesh_faceUVCounts mesh uvSet = getFaceUVCounts mesh 0 \<and>
              mesh_uvIndices mesh uvSet uvIndexBase =
                concat (map (\<lambda>fi. map (\<lambda>vi. uvIndexBase +
                                 getFaceUVIndices mesh fi 0 (unat (getFaceUVCounts mesh 0 ! fi) - vi - 1))
                              [0..<unat (getFaceUVCounts mesh 0 ! fi)])
                     [0..<unat (of_nat (length (getFaceUVCounts mesh 0)) :: 32 word)])) \<and>
         (\<forall>mesh \<in> set (concat geometries). \<forall>uvSet.
            getUVSetsCount mesh = 0 \<longrightarrow>
              mesh_src mesh uvSet = [] \<and>
              mesh_faceUVCounts mesh uvSet = replicate (unat (getFaceCount mesh)) 0)"
proof -
  let ?c0 = "\<lparr> numCoords = 0, numNormalCoords = 0, numCounts = 0, numHoles = 0, numIndices = 0,
               maxNumUVSets = 0 \<rparr>"
  from scanGeometries_returns [OF assms(1)]
  obtain c where scan: "scanGeometries v geometries materials ?c0 = Inr c" by blast
  let ?st0 = "\<lparr> sg = newSerializedGeometry (numCoords c) (numNormalCoords c) (numCounts c)
                           (numHoles c) (numIndices c) (maxNumUVSets c),
                vertexIndexBase = 0, normalIndexBase = 0, faceIndexBase = 0,
                uvIndexBases = replicate (unat (maxNumUVSets c)) 0 \<rparr>"
  note cc = scanGeometries_channelCount [OF scan]
  from scanGeometries_max [OF scan]
  have pairs: "map fst (meshMaterialPairs geometries materials) = concat geometries"
    by simp
  from assms(2)
  have pre: "NDEBUG \<or> (\<forall>mesh \<in> set (concat geometries). \<forall>u < unat (maxNumUVSets c).
               length (mesh_faceUVCounts mesh u) = unat (getFaceCount mesh))"
    by (simp add: cc)
  have "\<exists>st. copyMeshes NDEBUG (concat geometries) ?st0 = Inr st"
    using pre
    by (rule copyMeshes_returns) (simp_all add: newSerializedGeometry_def)
  then obtain st where copy': "copyMeshes NDEBUG (concat geometries) ?st0 = Inr st" by blast
  have ser: "serializeGeometry NDEBUG v geometries materials = Inr (sg st)"
    by (simp add: serializeGeometry_def scan copyGeometries_concat copy')
  have n0: "length (sg_uvs (sg ?st0)) = unat (maxNumUVSets c)"
    by (simp add: newSerializedGeometry_def)
  note eff = copyMeshes_effect [OF copy' n0]
  have len: "length (sg_uvs (sg st)) = channelCount v geometries materials"
    "length (sg_uvCounts (sg st)) = length (sg_uvs (sg st))"
    "length (sg_uvIndices (sg st)) = length (sg_uvs (sg st))"
    using eff by (simp_all add: newSerializedGeometry_def cc)
  have chan: "\<forall>uvSet < length (sg_uvs (sg st)).
            sg_uvs (sg st) ! uvSet =
              concat (map (\<lambda>mesh. mesh_src mesh uvSet) (concat geometries)) \<and>
            sg_uvCounts (sg st) ! uvSet =
              concat (map (\<lambda>mesh. mesh_faceUVCounts mesh uvSet) (concat geometries)) \<and>
            sg_uvIndices (sg st) ! uvSet = channelIndices uvSet 0 (concat geometries)"
  proof (intro allI impI)
    fix uvSet
    assume "uvSet < length (sg_uvs (sg st))"
    then have u: "uvSet < unat (maxNumUVSets c)" by (simp add: len cc)
    with eff show "sg_uvs (sg st) ! uvSet =
              concat (map (\<lambda>mesh. mesh_src mesh uvSet) (concat geometries)) \<and>
            sg_uvCounts (sg st) ! uvSet =
              concat (map (\<lambda>mesh. mesh_faceUVCounts mesh uvSet) (concat geometries)) \<and>
            sg_uvIndices (sg st) ! uvSet = channelIndices uvSet 0 (concat geometries)"
      by (simp add: newSerializedGeometry_def)
  qed
  have none: "mesh_src mesh uvSet = [] \<and>
              mesh_faceUVCounts mesh uvSet = replicate (unat (getFaceCount mesh)) 0"
    if "getUVSetsCount mesh = 0" for mesh :: "'a Mesh" and uvSet
    using that
    by (simp add: mesh_src_def mesh_uvs_def mesh_uvs0_def mesh_faceUVCounts_def
        mesh_faceUVCounts0_def)
  show ?thesis
  proof (intro exI [of _ "sg st"] conjI ballI allI impI)
    show "serializeGeometry NDEBUG v geometries materials = Inr (sg st)" by (rule ser)
    show "length (sg_uvs (sg st)) = channelCount v geometries materials" by (rule len)
    show "map fst (meshMaterialPairs geometries materials) = concat geometries" by (rule pairs)
    show "length (sg_uvCounts (sg st)) = length (sg_uvs (sg st))" by (rule len)
    show "length (sg_uvIndices (sg st)) = length (sg_uvs (sg st))" by (rule len)
  next
    fix uvSet
    assume "uvSet < length (sg_uvs (sg st))"
    with chan show "sg_uvs (sg st) ! uvSet =
              concat (map (\<lambda>mesh. mesh_src mesh uvSet) (concat geometries))"
      "sg_uvCounts (sg st) ! uvSet =
              concat (map (\<lambda>mesh. mesh_faceUVCounts mesh uvSet) (concat geometries))"
      "sg_uvIndices (sg st) ! uvSet = channelIndices uvSet 0 (concat geometries)"
      by simp_all
  next
    fix mesh :: "'a Mesh" and uvSet uvIndexBase
    assume "0 < getUVSetsCount mesh \<and> unat (getUVSetsCount mesh) \<le> uvSet"
    then have p: "0 < getUVSetsCount mesh" "unat (getUVSetsCount mesh) \<le> uvSet" by simp_all
    from backfill_from_set0 [OF p, of uvIndexBase]
    show "mesh_src mesh uvSet = getUVCoords mesh 0"
      "mesh_faceUVCounts mesh uvSet = getFaceUVCounts mesh 0"
      "mesh_uvIndices mesh uvSet uvIndexBase =
                concat (map (\<lambda>fi. map (\<lambda>vi. uvIndexBase +
                                 getFaceUVIndices mesh fi 0 (unat (getFaceUVCounts mesh 0 ! fi) - vi - 1))
                              [0..<unat (getFaceUVCounts mesh 0 ! fi)])
                     [0..<unat (of_nat (length (getFaceUVCounts mesh 0)) :: 32 word)])"
      by simp_all
  next
    fix mesh :: "'a Mesh" and uvSet
    assume "getUVSetsCount mesh = 0"
    from none [OF this, of uvSet]
    show "mesh_src mesh uvSet = []"
      "mesh_faceUVCounts mesh uvSet = replicate (unat (getFaceCount mesh)) 0"
      by simp_all
  qed
qed

text \<open>
  Two triangles in a release build, the first with the UV set 0 only, the second with the
  UV sets 0 and 1, both with a material without textures; and the first triangle alone in
  a debug build, with a material that has a valid texture in the bump map slot, which
  requires the UV set 1.
\<close>

lemma replicate_two: "replicate 2 x = [x, x]"
  by (simp add: numeral_2_eq_2)

lemmas serialize_eval = serializeGeometry_def scanMesh_def scanValidTextures_def
  TEXTURE_UV_MAPPINGS_def plainMaterial_def bumpMaterial_def exampleMaterial_def meshOne_def
  meshTwo_def newSerializedGeometry_def copyMesh_def copyFace_def mesh_src_def mesh_uvs_def
  mesh_uvs0_def mesh_faceUVCounts_def mesh_faceUVCounts0_def mesh_uvIndices_def
  mesh_faceUVIdx_def mesh_faceUVIdx0_def Let_def upt_conv_Cons replicate_two

lemma example_serialized:
  "serializeGeometry True 2 [[meshOne], [meshTwo]] [[plainMaterial], [plainMaterial]] =
     Inr \<lparr> sg_coords = [0, 0, 0, 1, 0, 0, 0, 1, 0, 0, 0, 0, 1, 0, 0, 0, 1, 0], sg_normals = [],
           sg_counts = [3, 3], sg_holeCounts = [0, 0], sg_holeIndices = [],
           sg_vertexIndices = [2, 1, 0, 5, 4, 3], sg_normalIndices = [],
           sg_uvs = [[10, 11, 12, 13, 14, 15, 20, 21, 22, 23, 24, 25],
                     [10, 11, 12, 13, 14, 15, 30, 31, 32, 33, 34, 35]],
           sg_uvCounts = [[3, 3], [3, 3]],
           sg_uvIndices = [[2, 1, 0, 5, 4, 3], [2, 1, 0, 5, 4, 3]] \<rparr>"
  by (simp add: serialize_eval)

lemma example_textured:
  "serializeGeometry False 2 [[meshOne]] [[bumpMaterial]] =
     Inr \<lparr> sg_coords = [0, 0, 0, 1, 0, 0, 0, 1, 0], sg_normals = [],
           sg_counts = [3], sg_holeCounts = [0], sg_holeIndices = [],
           sg_vertexIndices = [2, 1, 0], sg_normalIndices = [],
           sg_uvs = [[10, 11, 12, 13, 14, 15], [10, 11, 12, 13, 14, 15]],
           sg_uvCounts = [[3], [3]],
           sg_uvIndices = [[2, 1, 0], [2, 1, 0]] \<rparr>"
  by (simp add: serialize_eval)

lemma example_required:
  "requiredUVSets 2 plainMaterial = 0 \<and> requiredUVSets 2 bumpMaterial = 2"
  by (simp add: requiredUVSets_def validTextureUVSets_def TEXTURE_UV_MAPPINGS_def
      plainMaterial_def bumpMaterial_def exampleMaterial_def)

text \<open>
  In both examples two channels are emitted. In the first, channel 1 holds the
  coordinates of UV set 0 of the first mesh, followed by those of UV set 1 of the second,
  and the indices of the second mesh are offset by the three UV points of the first. In
  the second, the bump map asks for the channel 1, which the mesh fills with its UV set 0.
\<close>

theorem serializeGeometry_uv_channels_witness:
  "channelCount 2 [[meshOne], [meshTwo]] [[plainMaterial], [plainMaterial]] = 2 \<and>
   sg_uvs (projr (serializeGeometry True 2 [[meshOne], [meshTwo]]
      [[plainMaterial], [plainMaterial]])) ! 1 =
     getUVCoords meshOne 0 @ getUVCoords meshTwo 1 \<and>
   sg_uvIndices (projr (serializeGeometry True 2 [[meshOne], [meshTwo]]
      [[plainMaterial], [plainMaterial]])) = [[2, 1, 0, 5, 4, 3], [2, 1, 0, 5, 4, 3]] \<and>
   requiredUVSets 2 bumpMaterial = 2 \<and>
   channelCount 2 [[meshOne]] [[bumpMaterial]] = 2 \<and>
   sg_uvs (projr (serializeGeometry False 2 [[meshOne]] [[bumpMaterial]])) =
     [getUVCoords meshOne 0, getUVCoords meshOne 0] \<and>
   sg_uvCounts (projr (serializeGeometry False 2 [[meshOne]] [[bumpMaterial]])) =
     [getFaceUVCounts meshOne 0, getFaceUVCounts meshOne 0] \<and>
   sg_uvIndices (projr (serializeGeometry False 2 [[meshOne]] [[bumpMaterial]])) =
     [[2, 1, 0], [2, 1, 0]]"
proof -
  let ?S = "projr (serializeGeometry True 2 [[meshOne], [meshTwo]]
              [[plainMaterial], [plainMaterial]])"
  let ?T = "projr (serializeGeometry False 2 [[meshOne]] [[bumpMaterial]])"
  have coverS: "materialsCover [[meshOne], [meshTwo]] [[plainMaterial], [plainMaterial]]"
    by simp
  from serializeGeometry_uv_channels [OF coverS, of True 2]
  obtain s where s: "serializeGeometry True 2 [[meshOne], [meshTwo]]
                       [[plainMaterial], [plainMaterial]] = Inr s"
    and lenS: "length (sg_uvs s) =
                 channelCount 2 [[meshOne], [meshTwo]] [[plainMaterial], [plainMaterial]]"
    and chS: "\<forall>uvSet < length (sg_uvs s).
      sg_uvs s ! uvSet =
        concat (map (\<lambda>mesh. mesh_src mesh uvSet) (concat [[meshOne], [meshTwo]])) \<and>
      sg_uvCounts s ! uvSet =
        concat (map (\<lambda>mesh. mesh_faceUVCounts mesh uvSet) (concat [[meshOne], [meshTwo]])) \<and>
      sg_uvIndices s ! uvSet = channelIndices uvSet 0 (concat [[meshOne], [meshTwo]])"
    and bfS: "\<forall>mesh \<in> set (concat [[meshOne], [meshTwo]]). \<forall>uvSet uvIndexBase.
            0 < getUVSetsCount mesh \<and> unat (getUVSetsCount mesh) \<le> uvSet \<longrightarrow>
              mesh_src mesh uvSet = getUVCoords mesh 0 \<and>
              mesh_faceUVCounts mesh uvSet = getFaceUVCounts mesh 0 \<and>
              mesh_uvIndices mesh uvSet uvIndexBase =
                concat (map (\<lambda>fi. map (\<lambda>vi. uvIndexBase +
                                 getFaceUVIndices mesh fi 0 (unat (getFaceUVCounts mesh 0 ! fi) - vi - 1))
                              [0..<unat (getFaceUVCounts mesh 0 ! fi)])
                     [0..<unat (of_nat (length (getFaceUVCounts mesh 0)) :: 32 word)])"
    by blast
  from s have sS: "s = ?S" by simp
  have l2: "length (sg_uvs ?S) = 2" by (simp add: example_serialized)
  have w1: "channelCount 2 [[meshOne], [meshTwo]] [[plainMaterial], [plainMaterial]] = 2"
    using lenS l2 by (simp add: sS)
  have c1: "sg_uvs ?S ! 1 = mesh_src meshOne 1 @ mesh_src meshTwo 1"
    using chS l2 by (simp add: sS)
  have one: "0 < getUVSetsCount meshOne \<and> unat (getUVSetsCount meshOne) \<le> 1"
    by (simp add: meshOne_def)
  have m1: "mesh_src meshOne 1 = getUVCoords meshOne 0"
    "mesh_faceUVCounts meshOne 1 = getFaceUVCounts meshOne 0"
    using bfS [rule_format, of meshOne 1 0] one by simp_all
  have m2: "mesh_src meshTwo 1 = getUVCoords meshTwo 1"
    by (simp add: mesh_src_def mesh_uvs_def meshTwo_def meshOne_def)
  have w2: "sg_uvs ?S ! 1 = getUVCoords meshOne 0 @ getUVCoords meshTwo 1"
    using c1 m1 m2 by simp
  have w3: "sg_uvIndices ?S = [[2, 1, 0, 5, 4, 3], [2, 1, 0, 5, 4, 3]]"
    by (simp add: example_serialized)
  have coverT: "materialsCover [[meshOne]] [[bumpMaterial]]"
    by simp
  have countsT: "False \<or> (\<forall>mesh \<in> set (concat [[meshOne]]).
             \<forall>uvSet < channelCount 2 [[meshOne]] [[bumpMaterial]].
               length (mesh_faceUVCounts mesh uvSet) = unat (getFaceCount mesh))"
    by (simp add: mesh_faceUVCounts_def mesh_faceUVCounts0_def meshOne_def)
  from serializeGeometry_uv_channels [OF coverT countsT]
  obtain t where t: "serializeGeometry False 2 [[meshOne]] [[bumpMaterial]] = Inr t"
    and lenT: "length (sg_uvs t) = channelCount 2 [[meshOne]] [[bumpMaterial]]"
    and chT: "\<forall>uvSet < length (sg_uvs t).
      sg_uvs t ! uvSet = concat (map (\<lambda>mesh. mesh_src mesh uvSet) (concat [[meshOne]])) \<and>
      sg_uvCounts t ! uvSet =
        concat (map (\<lambda>mesh. mesh_faceUVCounts mesh uvSet) (concat [[meshOne]])) \<and>
      sg_uvIndices t ! uvSet = channelIndices uvSet 0 (concat [[meshOne]])"
    and lcT: "length (sg_uvCounts t) = length (sg_uvs t)"
    by blast
  from t have tT: "t = ?T" by simp
  have k2: "length (sg_uvs ?T) = 2" by (simp add: example_textured)
  have w5: "channelCount 2 [[meshOne]] [[bumpMaterial]] = 2"
    using lenT k2 by (simp add: tT)
  have z: "mesh_src meshOne 0 = getUVCoords meshOne 0"
    "mesh_faceUVCounts meshOne 0 = getFaceUVCounts meshOne 0"
    by (simp_all add: mesh_src_def mesh_uvs_def mesh_uvs0_def mesh_faceUVCounts_def
        mesh_faceUVCounts0_def meshOne_def)
  have u0: "sg_uvs ?T ! 0 = getUVCoords meshOne 0"
    "sg_uvCounts ?T ! 0 = getFaceUVCounts meshOne 0"
    using chT [rule_format, of 0] k2 z by (simp_all add: tT)
  have u1: "sg_uvs ?T ! 1 = getUVCoords meshOne 0"
    "sg_uvCounts ?T ! 1 = getFaceUVCounts meshOne 0"
    using chT [rule_format, of 1] k2 m1 by (simp_all add: tT)
  from k2 obtain a b where ab: "sg_uvs ?T = [a, b]"
    by (auto simp: length_Suc_conv numeral_2_eq_2)
  have w6: "sg_uvs ?T = [getUVCoords meshOne 0, getUVCoords meshOne 0]"
    using u0(1) u1(1) by (simp add: ab)
  from lcT k2 have "length (sg_uvCounts ?T) = 2" by (simp add: tT)
  then obtain c d where cd: "sg_uvCounts ?T = [c, d]"
    by (auto simp: length_Suc_conv numeral_2_eq_2)
  have w7: "sg_uvCounts ?T = [getFaceUVCounts meshOne 0, getFaceUVCounts meshOne 0]"
    using u0(2) u1(2) by (simp add: cd)
  have w8: "sg_uvIndices ?T = [[2, 1, 0], [2, 1, 0]]"
    by (simp add: example_textured)
  have w4: "requiredUVSets 2 bumpMaterial = 2" by (simp add: example_required)
  from w1 w2 w3 w4 w5 w6 w7 w8 show ?thesis by simp
qed

end
